theory Spec2Isabelle
  imports Main "HOL-Library.AList"
begin

section \<open>Python values and the exceptions of the module\<close>

text \<open>
  The module \<^verbatim>\<open>plugins/modules/sql_query.py\<close> receives its parameters from YAML and
  exchanges values with a database driver. The scalar values it handles are modelled by
  \<open>val\<close>: \<^verbatim>\<open>None\<close>, \<^verbatim>\<open>str\<close>, \<^verbatim>\<open>int\<close>, \<^verbatim>\<open>bool\<close>,
  \<^verbatim>\<open>datetime.date\<close> and \<^verbatim>\<open>datetime.datetime\<close> (naive, without time zone).
  Strings are ASCII texts; floating point numbers are not part of the model.
\<close>

datatype date = Date (year: nat) (month: nat) (day: nat)

datatype datetime =
  DateTime (dt_date: date) (hour: nat) (minute: nat) (second: nat) (microsecond: nat)

datatype val =
    VNone
  | VStr string
  | VInt int
  | VBool bool
  | VDate date
  | VDateTime datetime

text \<open>
  A structured parameter (the \<^verbatim>\<open>filter\<close> argument) is a nested mapping: a scalar or a
  \<^verbatim>\<open>dict\<close> with string keys, kept in insertion order.
\<close>

datatype pyobj =
    PVal val
  | PDict "(string \<times> pyobj) list"

text \<open>
  Every \<^verbatim>\<open>raise\<close> of the module and of the builtins it calls is a value of \<open>error\<close>.
  \<open>ValueError\<close> is the one raised by \<^verbatim>\<open>int\<close> and \<^verbatim>\<open>strptime\<close>;
  \<open>ColumnError c\<close> is \<^verbatim>\<open>ValueError('Column c does not exist')\<close>,
  \<open>OperatorError k\<close> is \<^verbatim>\<open>ValueError('Unknown operator on column k')\<close>,
  \<open>FailJson m\<close> is \<^verbatim>\<open>module.fail_json(msg=m)\<close> and \<open>DatabaseError\<close> is any
  exception raised by the driver while it executes a statement.
\<close>

datatype error =
    KeyError
  | TypeError
  | AttributeError
  | ValueError
  | ColumnError string
  | OperatorError string
  | FailJson string
  | DatabaseError

section \<open>Builtins used by the type table\<close>

definition is_space :: "char \<Rightarrow> bool" where
  "is_space c \<longleftrightarrow> (of_char c :: nat) \<in> {9, 10, 11, 12, 13, 28, 29, 30, 31, 32}"

definition strip :: "string \<Rightarrow> string" where
  "strip s = rev (dropWhile is_space (rev (dropWhile is_space s)))"

definition is_digit :: "char \<Rightarrow> bool" where
  "is_digit c \<longleftrightarrow> 48 \<le> (of_char c :: nat) \<and> (of_char c :: nat) \<le> 57"

definition digit_val :: "char \<Rightarrow> nat" where
  "digit_val c = of_char c - 48"

text \<open>
  \<^verbatim>\<open>int(s)\<close> on a string: surrounding whitespace is dropped, one sign is allowed, and
  the digits may be grouped by single underscores. On an ASCII text \<^verbatim>\<open>int\<close> skips the
  whitespace of C (tab to carriage return, and the blank) and not the separators 28
  to 31 that \<^verbatim>\<open>str.strip\<close> drops. \<open>parse_digits acc prev cs\<close> reads the digits;
  \<open>prev\<close> says that the character before was a digit.
\<close>

definition is_int_space :: "char \<Rightarrow> bool" where
  "is_int_space c \<longleftrightarrow> (of_char c :: nat) \<in> {9, 10, 11, 12, 13, 32}"

fun parse_digits :: "nat \<Rightarrow> bool \<Rightarrow> string \<Rightarrow> nat option" where
  "parse_digits acc prev [] = (if prev then Some acc else None)"
| "parse_digits acc prev (c # cs) =
     (if is_digit c then parse_digits (acc * 10 + digit_val c) True cs
      else if c = CHR ''_'' \<and> prev then parse_digits acc False cs
      else None)"

definition int_of_string :: "string \<Rightarrow> int option" where
  "int_of_string s =
     (case rev (dropWhile is_int_space (rev (dropWhile is_int_space s))) of
        [] \<Rightarrow> None
      | c # cs \<Rightarrow>
          if c = CHR ''-'' then map_option (\<lambda>n. - int n) (parse_digits 0 False cs)
          else if c = CHR ''+'' then map_option int (parse_digits 0 False cs)
          else map_option int (parse_digits 0 False (c # cs)))"

fun py_int :: "val \<Rightarrow> error + val" where
  "py_int (VInt i) = Inr (VInt i)"
| "py_int (VBool b) = Inr (VInt (if b then 1 else 0))"
| "py_int (VStr s) = (case int_of_string s of None \<Rightarrow> Inl ValueError | Some i \<Rightarrow> Inr (VInt i))"
| "py_int VNone = Inl TypeError"
| "py_int (VDate d) = Inl TypeError"
| "py_int (VDateTime d) = Inl TypeError"

fun string_of_nat :: "nat \<Rightarrow> string" where
  "string_of_nat n =
     (if n < 10 then [char_of (48 + n)]
      else string_of_nat (n div 10) @ [char_of (48 + n mod 10)])"

definition string_of_int :: "int \<Rightarrow> string" where
  "string_of_int i = (if i < 0 then CHR ''-'' # string_of_nat (nat (- i)) else string_of_nat (nat i))"

definition zero_pad :: "nat \<Rightarrow> nat \<Rightarrow> string" where
  "zero_pad w n = replicate (w - length (string_of_nat n)) CHR ''0'' @ string_of_nat n"

definition string_of_date :: "date \<Rightarrow> string" where
  "string_of_date d = zero_pad 4 (year d) @ ''-'' @ zero_pad 2 (month d) @ ''-'' @ zero_pad 2 (day d)"

definition string_of_datetime :: "datetime \<Rightarrow> string" where
  "string_of_datetime t =
     string_of_date (dt_date t) @ '' '' @ zero_pad 2 (hour t) @ '':'' @ zero_pad 2 (minute t)
       @ '':'' @ zero_pad 2 (second t)
       @ (if microsecond t = 0 then [] else ''.'' @ zero_pad 6 (microsecond t))"

fun py_str :: "val \<Rightarrow> error + val" where
  "py_str (VStr s) = Inr (VStr s)"
| "py_str (VInt i) = Inr (VStr (string_of_int i))"
| "py_str (VBool b) = Inr (VStr (if b then ''True'' else ''False''))"
| "py_str VNone = Inr (VStr ''None'')"
| "py_str (VDate d) = Inr (VStr (string_of_date d))"
| "py_str (VDateTime t) = Inr (VStr (string_of_datetime t))"

fun py_bool :: "val \<Rightarrow> error + val" where
  "py_bool VNone = Inr (VBool False)"
| "py_bool (VStr s) = Inr (VBool (s \<noteq> []))"
| "py_bool (VInt i) = Inr (VBool (i \<noteq> 0))"
| "py_bool (VBool b) = Inr (VBool b)"
| "py_bool (VDate d) = Inr (VBool True)"
| "py_bool (VDateTime t) = Inr (VBool True)"

text \<open>
  \<^verbatim>\<open>a != b\<close> on these values: \<^verbatim>\<open>bool\<close> is a subclass of \<^verbatim>\<open>int\<close>, so \<^verbatim>\<open>True == 1\<close>;
  values of different classes are otherwise unequal (a \<^verbatim>\<open>date\<close> never equals a
  \<^verbatim>\<open>datetime\<close>).
\<close>

fun py_eq :: "val \<Rightarrow> val \<Rightarrow> bool" where
  "py_eq (VInt i) (VBool b) = (i = (if b then 1 else 0))"
| "py_eq (VBool b) (VInt i) = (i = (if b then 1 else 0))"
| "py_eq a b = (a = b)"

definition py_ne :: "val \<Rightarrow> val \<Rightarrow> bool" where
  "py_ne a b = (\<not> py_eq a b)"

section \<open>The evaluation environment\<close>

text \<open>
  Two things the coercions use are outside the repository: the clock
  (\<^verbatim>\<open>datetime.datetime.now()\<close>) and the library parser
  \<^verbatim>\<open>datetime.datetime.strptime(text, format)\<close>, which raises \<^verbatim>\<open>ValueError\<close> when the
  text does not match the format (here \<open>None\<close>). Both are parameters; one clock reading
  stands for the whole invocation.

  So are two attribute lookups on objects of the library. \<^verbatim>\<open>getattr(self.table.c, name)\<close>
  finds the attributes that the column collection has of its own (its methods
  \<^verbatim>\<open>keys\<close>, \<^verbatim>\<open>values\<close>, \<^verbatim>\<open>items\<close> and so on) before it looks for a column of that
  name: \<open>collection_attr e name\<close> says that \<open>name\<close> is such an attribute. The object the
  lookup yields is a \<open>colref\<close>: a column of the table, or an attribute of the
  collection, which is no column. \<^verbatim>\<open>getattr(column, key)\<close> on such an object:
  \<open>column_getattr e column key\<close> is \<open>None\<close> when the lookup raises \<^verbatim>\<open>AttributeError\<close>,
  \<open>Some Method\<close> when it yields a callable operator and \<open>Some Attribute\<close> when it
  yields something that cannot be called.
\<close>

datatype attr = Method | Attribute

datatype colref = Column string | CollectionAttr string

record env =
  now :: datetime
  strptime :: "string \<Rightarrow> string \<Rightarrow> datetime option"
  collection_attr :: "string \<Rightarrow> bool"
  column_getattr :: "colref \<Rightarrow> string \<Rightarrow> attr option"

section \<open>\<^verbatim>\<open>to_datetime\<close> and \<^verbatim>\<open>TYPE_FOR_NAME\<close>\<close>

fun is_datetime :: "val \<Rightarrow> bool" where
  "is_datetime (VDateTime t) = True"
| "is_datetime v = False"

text \<open>\<^verbatim>\<open>isinstance(x, datetime.date)\<close>: \<^verbatim>\<open>datetime\<close> is a subclass of \<^verbatim>\<open>date\<close>.\<close>

fun is_date :: "val \<Rightarrow> bool" where
  "is_date (VDate d) = True"
| "is_date (VDateTime t) = True"
| "is_date v = False"

text \<open>The first statement of \<^verbatim>\<open>to_datetime\<close>: the value of \<^verbatim>\<open>x\<close> after the outer \<^verbatim>\<open>if\<close>.\<close>

definition to_datetime_parse :: "env \<Rightarrow> val \<Rightarrow> bool \<Rightarrow> error + val" where
  "to_datetime_parse e x date =
     (if \<not> is_datetime x \<and> \<not> is_date x then
        (case x of
           VStr s \<Rightarrow>
             if strip s = ''now'' then Inr (VDateTime (now e))
             else if date then
               (case strptime e s ''%Y-%m-%d'' of
                  None \<Rightarrow> Inl ValueError
                | Some t \<Rightarrow> Inr (VDateTime t))
             else
               (case strptime e s ''%Y-%m-%d %H:%M:%S'' of
                  None \<Rightarrow> Inl ValueError
                | Some t \<Rightarrow> Inr (VDateTime t))
         | _ \<Rightarrow> Inl AttributeError)
      else Inr x)"

definition to_datetime :: "env \<Rightarrow> val \<Rightarrow> bool \<Rightarrow> error + val" where
  "to_datetime e x date =
     (case to_datetime_parse e x date of
        Inl err \<Rightarrow> Inl err
      | Inr x' \<Rightarrow>
          (case x' of
             VDateTime t \<Rightarrow> if date then Inr (VDate (dt_date t)) else Inr x'
           | _ \<Rightarrow> Inr x'))"

datatype sqlalchemy_type =
  SA_String | SA_Integer | SA_BigInteger | SA_Boolean | SA_Date | SA_DateTime | SA_Text

record type_entry =
  sqlalchemy :: sqlalchemy_type
  python :: "val \<Rightarrow> error + val"

definition TYPE_FOR_NAME :: "env \<Rightarrow> string \<Rightarrow> type_entry option" where
  "TYPE_FOR_NAME e type_name =
     (if type_name = ''String'' then Some \<lparr>sqlalchemy = SA_String, python = py_str\<rparr>
      else if type_name = ''Integer'' then Some \<lparr>sqlalchemy = SA_Integer, python = py_int\<rparr>
      else if type_name = ''BigInteger'' then Some \<lparr>sqlalchemy = SA_BigInteger, python = py_int\<rparr>
      else if type_name = ''Boolean'' then Some \<lparr>sqlalchemy = SA_Boolean, python = py_bool\<rparr>
      else if type_name = ''Date'' then
        Some \<lparr>sqlalchemy = SA_Date, python = (\<lambda>x. to_datetime e x True)\<rparr>
      else if type_name = ''DateTime'' then
        Some \<lparr>sqlalchemy = SA_DateTime, python = (\<lambda>x. to_datetime e x False)\<rparr>
      else if type_name = ''Text'' then Some \<lparr>sqlalchemy = SA_Text, python = py_str\<rparr>
      else None)"

section \<open>Request parameters and \<^verbatim>\<open>create_table\<close>\<close>

text \<open>
  One entry of the \<^verbatim>\<open>columns\<close> parameter. \<open>arg_value\<close> is \<open>None\<close> when the entry has no
  \<^verbatim>\<open>value\<close> key (\<^verbatim>\<open>KeyError\<close> in the source) and \<open>Some VNone\<close> when the key is there
  with the value \<^verbatim>\<open>None\<close>.
\<close>

record column_arg =
  arg_name :: string
  arg_type :: string
  arg_value :: "val option"

text \<open>The \<^verbatim>\<open>state\<close> parameter, restricted to its five choices by the argument spec.\<close>

datatype state = SPresent | SAbsent | SSelect | SInsert | SCount

record params =
  param_table :: string
  param_keys :: "string list"
  param_columns :: "column_arg list"
  param_state :: state
  param_distinct :: bool
  param_filter :: "(string \<times> pyobj) list"
  check_mode :: bool

text \<open>
  The attributes \<^verbatim>\<open>create_table\<close> sets on the object: \<^verbatim>\<open>self.keys\<close>,
  \<^verbatim>\<open>self.new_values\<close> and \<^verbatim>\<open>self.type_for_column\<close> (dictionaries in insertion order) and
  \<^verbatim>\<open>self.table\<close> with its name and columns.
\<close>

record self =
  self_keys :: "string list"
  new_values :: "(string \<times> val) list"
  type_for_column :: "(string \<times> type_entry) list"
  table_name :: string
  table_columns :: "(string \<times> sqlalchemy_type) list"

text \<open>The body of the loop over \<^verbatim>\<open>columns\<close>, one entry after the other.\<close>

fun create_columns :: "env \<Rightarrow> column_arg list \<Rightarrow> self \<Rightarrow> error + self" where
  "create_columns e [] s = Inr s"
| "create_columns e (arg # args) s =
     (case TYPE_FOR_NAME e (arg_type arg) of
        None \<Rightarrow> Inl KeyError
      | Some entry \<Rightarrow>
          (case (case arg_value arg of
                   None \<Rightarrow> Inr VNone
                 | Some v \<Rightarrow> if v \<noteq> VNone then python entry v else Inr v) of
             Inl err \<Rightarrow> Inl err
           | Inr v \<Rightarrow>
               create_columns e args
                 (s\<lparr>table_columns := table_columns s @ [(arg_name arg, sqlalchemy entry)],
                    new_values :=
                      (if arg_value arg \<noteq> None then AList.update (arg_name arg) v (new_values s)
                       else new_values s),
                    type_for_column := AList.update (arg_name arg) entry (type_for_column s)\<rparr>)))"

definition create_table :: "env \<Rightarrow> params \<Rightarrow> error + self" where
  "create_table e p =
     create_columns e (param_columns p)
       \<lparr>self_keys = param_keys p, new_values = [], type_for_column = [],
        table_name = param_table p, table_columns = []\<rparr>"

section \<open>Predicates, the filter and \<^verbatim>\<open>where_keys\<close>\<close>

text \<open>
  The objects the module puts into \<^verbatim>\<open>args\<close>. For a column \<open>c\<close> of the table:
  \<open>PEq c v\<close> is \<^verbatim>\<open>column == v\<close>, \<open>PCol c\<close> is the column object alone and
  \<open>POp c k v\<close> is \<^verbatim>\<open>getattr(column, k)(v)\<close>. For an attribute \<open>a\<close> of the column
  collection, which is a plain Python object: \<^verbatim>\<open>obj == v\<close> is the Python value
  \<^verbatim>\<open>False\<close>, here \<open>PFalse\<close>; \<open>PObj a\<close> is the object alone and \<open>PObjOp a k v\<close> is
  \<^verbatim>\<open>getattr(obj, k)(v)\<close>. \<open>PAnd\<close> and \<open>POr\<close> are \<^verbatim>\<open>sqlalchemy.sql.and_\<close> and
  \<^verbatim>\<open>or_\<close> of their arguments; what the library makes of an argument that is no
  expression is left to the driver that receives the statement.
\<close>

datatype pred =
    PEq string pyobj
  | PCol string
  | POp string string pyobj
  | PFalse
  | PObj string
  | PObjOp string string pyobj
  | PAnd "pred list"
  | POr "pred list"

fun column_eq :: "colref \<Rightarrow> pyobj \<Rightarrow> pred" where
  "column_eq (Column c) v = PEq c v"
| "column_eq (CollectionAttr a) v = PFalse"

fun column_alone :: "colref \<Rightarrow> pred" where
  "column_alone (Column c) = PCol c"
| "column_alone (CollectionAttr a) = PObj a"

fun column_op :: "colref \<Rightarrow> string \<Rightarrow> pyobj \<Rightarrow> pred" where
  "column_op (Column c) k v = POp c k v"
| "column_op (CollectionAttr a) k v = PObjOp a k v"

text \<open>
  \<^verbatim>\<open>_where_column_helper\<close>: \<^verbatim>\<open>getattr(self.table.c, column_name)\<close> yields an attribute
  of the collection when the name is one, else the column of that name, else it raises
  \<^verbatim>\<open>AttributeError\<close> and the helper raises its \<^verbatim>\<open>ValueError\<close>. A name that is not a
  string makes \<^verbatim>\<open>getattr\<close> raise \<^verbatim>\<open>TypeError\<close>, which the handler does not catch.
\<close>

definition where_column_helper :: "env \<Rightarrow> self \<Rightarrow> pyobj \<Rightarrow> error + colref" where
  "where_column_helper e s column_name =
     (case column_name of
        PVal (VStr n) \<Rightarrow>
          if collection_attr e n then Inr (CollectionAttr n)
          else if n \<in> set (map fst (table_columns s)) then Inr (Column n)
          else Inl (ColumnError n)
      | _ \<Rightarrow> Inl TypeError)"

text \<open>\<^verbatim>\<open>obj[k]\<close> for a string \<open>k\<close>: only a dictionary can be indexed by a string.\<close>

definition subscript :: "pyobj \<Rightarrow> string \<Rightarrow> error + pyobj" where
  "subscript obj k =
     (case obj of
        PDict d \<Rightarrow> (case map_of d k of None \<Rightarrow> Inl KeyError | Some x \<Rightarrow> Inr x)
      | PVal v \<Rightarrow> Inl TypeError)"

text \<open>The last branch of \<^verbatim>\<open>_split_filter\<close>: the predicate of one column operator.\<close>

definition filter_leaf :: "env \<Rightarrow> self \<Rightarrow> string \<Rightarrow> pyobj \<Rightarrow> error + pred" where
  "filter_leaf e s key node =
     (case subscript node ''column'' of
        Inl err \<Rightarrow> Inl err
      | Inr column_name \<Rightarrow>
          (case where_column_helper e s column_name of
             Inl err \<Rightarrow> Inl err
           | Inr column \<Rightarrow>
               (case subscript node ''value'' of
                  Inl err \<Rightarrow> Inl err
                | Inr column_value \<Rightarrow>
                    if key = ''eq'' then Inr (column_eq column column_value)
                    else if key = ''ne'' then Inr (column_alone column)
                    else
                      (case column_getattr e column key of
                         None \<Rightarrow> Inl (OperatorError key)
                       | Some Method \<Rightarrow> Inr (column_op column key column_value)
                       | Some Attribute \<Rightarrow> Inl TypeError))))"

text \<open>
  \<open>split_filter e s args fltrs\<close> is \<^verbatim>\<open>self._split_filter(args, fltrs)\<close> for a dictionary
  \<open>fltrs\<close>, returning the list \<open>args\<close> after the appends. \<open>split_filter_obj\<close> is the
  same call on an arbitrary object: iterating a scalar other than a string raises
  \<^verbatim>\<open>TypeError\<close>, the empty string has nothing to iterate, and the first character of
  any other string is a key that the string cannot be indexed with.
\<close>

fun split_filter :: "env \<Rightarrow> self \<Rightarrow> pred list \<Rightarrow> (string \<times> pyobj) list \<Rightarrow> error + pred list"
  and split_filter_obj :: "env \<Rightarrow> self \<Rightarrow> pred list \<Rightarrow> pyobj \<Rightarrow> error + pred list" where
  "split_filter e s args [] = Inr args"
| "split_filter e s args ((key, node) # fltrs) =
     (if key = ''and'' then
        (case split_filter_obj e s [] node of
           Inl err \<Rightarrow> Inl err
         | Inr sub_args \<Rightarrow> split_filter e s (args @ [PAnd sub_args]) fltrs)
      else if key = ''or'' then
        (case split_filter_obj e s [] node of
           Inl err \<Rightarrow> Inl err
         | Inr sub_args \<Rightarrow> split_filter e s (args @ [POr sub_args]) fltrs)
      else
        (case filter_leaf e s key node of
           Inl err \<Rightarrow> Inl err
         | Inr a \<Rightarrow> split_filter e s (args @ [a]) fltrs))"
| "split_filter_obj e s args (PDict fltrs) = split_filter e s args fltrs"
| "split_filter_obj e s args (PVal v) = (if v = VStr [] then Inr args else Inl TypeError)"

text \<open>The loop over \<^verbatim>\<open>self.keys\<close> at the start of \<^verbatim>\<open>where_keys\<close>.\<close>

fun key_args :: "env \<Rightarrow> self \<Rightarrow> pred list \<Rightarrow> string list \<Rightarrow> error + pred list" where
  "key_args e s args [] = Inr args"
| "key_args e s args (col # cols) =
     (case map_of (new_values s) col of
        None \<Rightarrow> key_args e s args cols
      | Some new_value \<Rightarrow>
          (case where_column_helper e s (PVal (VStr col)) of
             Inl err \<Rightarrow> Inl err
           | Inr column \<Rightarrow> key_args e s (args @ [column_eq column (PVal new_value)]) cols))"

text \<open>
  \<open>where_keys\<close> returns the WHERE clause it attaches to the statement: \<open>None\<close> when
  \<^verbatim>\<open>args\<close> is empty and the statement is returned as it came.
\<close>

definition where_keys :: "env \<Rightarrow> params \<Rightarrow> self \<Rightarrow> error + pred option" where
  "where_keys e p s =
     (case key_args e s [] (self_keys s) of
        Inl err \<Rightarrow> Inl err
      | Inr args \<Rightarrow>
          (case (if param_filter p \<noteq> [] then split_filter e s args (param_filter p)
                 else Inr args) of
             Inl err \<Rightarrow> Inl err
           | Inr args' \<Rightarrow> Inr (if length args' > 0 then Some (PAnd args') else None)))"

section \<open>Statements and the database driver\<close>

text \<open>
  The statements the module hands to the driver. A \<open>Select\<close> carries the table, the
  WHERE clause and whether \<^verbatim>\<open>.distinct()\<close> and \<^verbatim>\<open>.count()\<close> were applied; \<open>Insert\<close>
  and \<open>Update\<close> carry the values given to \<^verbatim>\<open>.values(...)\<close>.
\<close>

datatype statement =
    Select string "pred option" bool bool
  | Insert string "(string \<times> val) list"
  | Update string "pred option" "(string \<times> val) list"
  | Delete string "pred option"

fun is_select :: "statement \<Rightarrow> bool" where
  "is_select (Select t w d c) = True"
| "is_select st = False"

type_synonym row = "(string \<times> val) list"

text \<open>
  The driver is outside the repository. The module needs three things of it:
  whether a table exists, the rows a reading statement returns, and the database after
  a writing statement. Each execution can raise; a reading statement leaves the database
  as it is and a statement that raises has written nothing.
\<close>

record 'db driver =
  has_table :: "'db \<Rightarrow> string \<Rightarrow> bool"
  run_query :: "'db \<Rightarrow> statement \<Rightarrow> error + row list"
  run_write :: "'db \<Rightarrow> statement \<Rightarrow> error + 'db"

text \<open>
  Every operation returns what it computed (or the exception), and the statements it
  handed to the driver, in order; the writing ones return the database as well.
\<close>

definition select_rows ::
  "'db driver \<Rightarrow> env \<Rightarrow> params \<Rightarrow> self \<Rightarrow> 'db \<Rightarrow> (error + row list) \<times> statement list" where
  "select_rows drv e p s db =
     (case where_keys e p s of
        Inl err \<Rightarrow> (Inl err, [])
      | Inr w \<Rightarrow>
          (let stmt = Select (table_name s) w (param_distinct p) (param_state p = SCount)
           in (run_query drv db stmt, [stmt])))"

definition execute_write ::
  "'db driver \<Rightarrow> 'db \<Rightarrow> statement \<Rightarrow> (error + unit) \<times> 'db \<times> statement list" where
  "execute_write drv db stmt =
     (case run_write drv db stmt of
        Inl err \<Rightarrow> (Inl err, db, [stmt])
      | Inr db' \<Rightarrow> (Inr (), db', [stmt]))"

definition insert_row ::
  "'db driver \<Rightarrow> self \<Rightarrow> 'db \<Rightarrow> (error + unit) \<times> 'db \<times> statement list" where
  "insert_row drv s db = execute_write drv db (Insert (table_name s) (new_values s))"

definition update_rows ::
  "'db driver \<Rightarrow> env \<Rightarrow> params \<Rightarrow> self \<Rightarrow> 'db \<Rightarrow> (error + unit) \<times> 'db \<times> statement list" where
  "update_rows drv e p s db =
     (case where_keys e p s of
        Inl err \<Rightarrow> (Inl err, db, [])
      | Inr w \<Rightarrow>
          execute_write drv db
            (Update (table_name s) w
               (filter (\<lambda>(col, v). col \<notin> set (self_keys s)) (new_values s))))"

definition delete_rows ::
  "'db driver \<Rightarrow> env \<Rightarrow> params \<Rightarrow> self \<Rightarrow> 'db \<Rightarrow> (error + unit) \<times> 'db \<times> statement list" where
  "delete_rows drv e p s db =
     (case where_keys e p s of
        Inl err \<Rightarrow> (Inl err, db, [])
      | Inr w \<Rightarrow> execute_write drv db (Delete (table_name s) w))"

section \<open>\<^verbatim>\<open>format_rows\<close> and \<^verbatim>\<open>compare_rows\<close>\<close>

text \<open>
  The inner loop of \<^verbatim>\<open>format_rows\<close> over \<^verbatim>\<open>row.keys()\<close>, building \<^verbatim>\<open>frow\<close>. A column
  without an entry in \<^verbatim>\<open>self.type_for_column\<close> raises \<^verbatim>\<open>KeyError\<close>.
\<close>

fun format_row :: "self \<Rightarrow> row \<Rightarrow> row \<Rightarrow> string list \<Rightarrow> error + row" where
  "format_row s row frow [] = Inr frow"
| "format_row s row frow (col # cols) =
     (case map_of (type_for_column s) col of
        None \<Rightarrow> Inl KeyError
      | Some entry \<Rightarrow>
          (case map_of row col of
             None \<Rightarrow> Inl KeyError
           | Some v \<Rightarrow>
               if v \<noteq> VNone then
                 (case python entry v of
                    Inl err \<Rightarrow> Inl err
                  | Inr v' \<Rightarrow> format_row s row (AList.update col v' frow) cols)
               else format_row s row (AList.update col v frow) cols))"

fun format_row_list :: "self \<Rightarrow> row list \<Rightarrow> row list \<Rightarrow> error + row list" where
  "format_row_list s frows [] = Inr frows"
| "format_row_list s frows (row # rows) =
     (case format_row s row [] (map fst row) of
        Inl err \<Rightarrow> Inl err
      | Inr frow \<Rightarrow> format_row_list s (frows @ [frow]) rows)"

text \<open>
  \<^verbatim>\<open>format_rows\<close> is called with the list of rows a query returned or, in check mode
  of state \<^verbatim>\<open>present\<close>, with the dictionary \<^verbatim>\<open>self.new_values\<close>. Iterating a dictionary
  yields its keys, which are strings, and \<^verbatim>\<open>row.keys()\<close> on a string raises
  \<^verbatim>\<open>AttributeError\<close>.
\<close>

datatype rowset = RowList "row list" | RowDict "(string \<times> val) list"

fun format_rows :: "self \<Rightarrow> rowset \<Rightarrow> error + row list" where
  "format_rows s (RowList rows) = format_row_list s [] rows"
| "format_rows s (RowDict []) = Inr []"
| "format_rows s (RowDict (kv # kvs)) = Inl AttributeError"

text \<open>
  \<^verbatim>\<open>compare_rows\<close>: the inner loop runs over the entries of \<^verbatim>\<open>self.new_values\<close>; a row
  without the column raises (\<^verbatim>\<open>NoSuchColumnError\<close>, a \<^verbatim>\<open>KeyError\<close>).
\<close>

fun compare_row :: "(string \<times> val) list \<Rightarrow> row \<Rightarrow> error + bool" where
  "compare_row [] row = Inr False"
| "compare_row ((col, v) # nvs) row =
     (case map_of row col of
        None \<Rightarrow> Inl KeyError
      | Some rv \<Rightarrow> if py_ne v rv then Inr True else compare_row nvs row)"

fun compare_rows :: "self \<Rightarrow> row list \<Rightarrow> error + bool" where
  "compare_rows s [] = Inr False"
| "compare_rows s (row # rows) =
     (case compare_row (new_values s) row of
        Inl err \<Rightarrow> Inl err
      | Inr b \<Rightarrow> if b then Inr True else compare_rows s rows)"

section \<open>\<^verbatim>\<open>SQLQuery.__init__\<close>\<close>

text \<open>
  The constructor does all the work of the module. The engine that
  \<^verbatim>\<open>init_sqlalchemy\<close> connects is the driver together with the database it talks to;
  \<^verbatim>\<open>exit_json\<close> and \<^verbatim>\<open>fail_json\<close> end the call, so each branch ends with its result.
\<close>

record result =
  changed :: bool
  rows :: "row list option"

type_synonym 'db outcome = "(error + result) \<times> 'db \<times> statement list"

text \<open>\<^verbatim>\<open>module.exit_json(changed=c, rows=self.format_rows(r))\<close>: the argument is evaluated first.\<close>

definition exit_json :: "bool \<Rightarrow> error + row list \<Rightarrow> error + result" where
  "exit_json c fr =
     (case fr of Inl err \<Rightarrow> Inl err | Inr frows \<Rightarrow> Inr \<lparr>changed = c, rows = Some frows\<rparr>)"

text \<open>The branch for \<^verbatim>\<open>state == 'absent'\<close>.\<close>

definition run_absent ::
  "'db driver \<Rightarrow> env \<Rightarrow> params \<Rightarrow> self \<Rightarrow> 'db \<Rightarrow> row list \<Rightarrow> statement list \<Rightarrow> 'db outcome" where
  "run_absent drv e p s db rows_after log =
     (let changed = (if length rows_after < 1 then False else True) in
      if changed \<and> \<not> check_mode p then
        (case delete_rows drv e p s db of
           (Inl err, db', log') \<Rightarrow> (Inl err, db', log @ log')
         | (Inr u, db', log') \<Rightarrow> (Inr \<lparr>changed = changed, rows = None\<rparr>, db', log @ log'))
      else (Inr \<lparr>changed = changed, rows = None\<rparr>, db, log))"

text \<open>The second read and the exit shared by the branches that read again.\<close>

definition reread_and_exit ::
  "'db driver \<Rightarrow> env \<Rightarrow> params \<Rightarrow> self \<Rightarrow> 'db \<Rightarrow> bool \<Rightarrow> statement list \<Rightarrow> 'db outcome" where
  "reread_and_exit drv e p s db c log =
     (case select_rows drv e p s db of
        (Inl err, log') \<Rightarrow> (Inl err, db, log @ log')
      | (Inr rows_after, log') \<Rightarrow>
          (exit_json c (format_rows s (RowList rows_after)), db, log @ log'))"

text \<open>The branch for \<^verbatim>\<open>state == 'insert'\<close>.\<close>

definition run_insert ::
  "'db driver \<Rightarrow> env \<Rightarrow> params \<Rightarrow> self \<Rightarrow> 'db \<Rightarrow> statement list \<Rightarrow> 'db outcome" where
  "run_insert drv e p s db log =
     (if \<not> check_mode p then
        (case insert_row drv s db of
           (Inl err, db', log') \<Rightarrow> (Inl err, db', log @ log')
         | (Inr u, db', log') \<Rightarrow> reread_and_exit drv e p s db' True (log @ log'))
      else reread_and_exit drv e p s db True log)"

text \<open>The last branch, for \<^verbatim>\<open>state == 'present'\<close>.\<close>

definition run_present ::
  "'db driver \<Rightarrow> env \<Rightarrow> params \<Rightarrow> self \<Rightarrow> 'db \<Rightarrow> row list \<Rightarrow> statement list \<Rightarrow> 'db outcome" where
  "run_present drv e p s db rows_after log =
     (case (if length rows_after < 1 then Inr True else compare_rows s rows_after) of
        Inl err \<Rightarrow> (Inl err, db, log)
      | Inr c \<Rightarrow>
          if check_mode p then (exit_json c (format_rows s (RowDict (new_values s))), db, log)
          else if c then
            (case (if length rows_after < 1 then insert_row drv s db
                   else update_rows drv e p s db) of
               (Inl err, db', log') \<Rightarrow> (Inl err, db', log @ log')
             | (Inr u, db', log') \<Rightarrow> reread_and_exit drv e p s db' c (log @ log'))
          else (exit_json c (format_rows s (RowList rows_after)), db, log))"

definition SQLQuery_init :: "'db driver \<Rightarrow> env \<Rightarrow> params \<Rightarrow> 'db \<Rightarrow> 'db outcome" where
  "SQLQuery_init drv e p db =
     (if \<not> has_table drv db (param_table p) then (Inl (FailJson ''table does not exist''), db, [])
      else
        (case create_table e p of
           Inl err \<Rightarrow> (Inl err, db, [])
         | Inr s \<Rightarrow>
             (case select_rows drv e p s db of
                (Inl err, log) \<Rightarrow> (Inl err, db, log)
              | (Inr rows_after, log) \<Rightarrow>
                  if param_state p = SSelect \<or> param_state p = SCount then
                    (exit_json False (format_rows s (RowList rows_after)), db, log)
                  else if param_state p = SAbsent then run_absent drv e p s db rows_after log
                  else if param_state p = SInsert then run_insert drv e p s db log
                  else run_present drv e p s db rows_after log)))"

section \<open>Vocabulary of the specification\<close>

text \<open>
  The key-equality clause in the words of the specification: for each name in \<^verbatim>\<open>keys\<close>
  that has a declared value, in order, the predicate \<^verbatim>\<open>column = declaredValue\<close>; a key
  without a declared value contributes nothing.
\<close>

definition spec_key_equalities :: "self \<Rightarrow> pred list" where
  "spec_key_equalities s =
     List.map_filter (\<lambda>k. map_option (\<lambda>v. PEq k (PVal v)) (map_of (new_values s) k))
       (self_keys s)"

text \<open>
  The table has converged to the desired state when the read finds at least one row and
  every row it finds carries, in each column with a declared value, a value equal to the
  declared one.
\<close>

definition converged :: "self \<Rightarrow> row list \<Rightarrow> bool" where
  "converged s rws \<longleftrightarrow>
     rws \<noteq> [] \<and>
     list_all (\<lambda>row. list_all (\<lambda>(col, v). case map_of row col of
                                              None \<Rightarrow> False
                                            | Some rv \<Rightarrow> py_eq v rv) (new_values s)) rws"

text \<open>A row agrees with the declared values when it carries an equal value in each of their columns.\<close>

definition agrees :: "(string \<times> val) list \<Rightarrow> row \<Rightarrow> bool" where
  "agrees nvs row \<longleftrightarrow> (\<forall>(col, v) \<in> set nvs. \<exists>rv. map_of row col = Some rv \<and> py_eq v rv)"

text \<open>
  What a call reported: \<open>Some c\<close> when it exited with \<^verbatim>\<open>changed=c\<close>. The database
  it left and the statements it handed to the driver are the other two components.
\<close>

definition reported_changed :: "'db outcome \<Rightarrow> bool option" where
  "reported_changed out = (case fst out of Inl err \<Rightarrow> None | Inr r \<Rightarrow> Some (changed r))"

definition final_db :: "'a \<times> 'db \<times> statement list \<Rightarrow> 'db" where
  "final_db out = fst (snd out)"

definition executed :: "'a \<times> 'db \<times> statement list \<Rightarrow> statement list" where
  "executed out = snd (snd out)"

fun is_delete :: "statement \<Rightarrow> bool" where
  "is_delete (Delete t w) = True"
| "is_delete st = False"

text \<open>The DISTINCT flag of a statement; only a \<open>Select\<close> has one.\<close>

fun select_distinct :: "statement \<Rightarrow> bool option" where
  "select_distinct (Select t w d c) = Some d"
| "select_distinct st = None"

text \<open>The WHERE clause a statement carries; an \<open>Insert\<close> has no place for one.\<close>

fun statement_where :: "statement \<Rightarrow> pred option option" where
  "statement_where (Select t w d c) = Some w"
| "statement_where (Update t w vs) = Some w"
| "statement_where (Delete t w) = Some w"
| "statement_where (Insert t vs) = None"

text \<open>
  The statements the module can build for a request: the insert of the declared values
  and, when \<^verbatim>\<open>where_keys\<close> succeeds, the select, update and delete with its clause.
\<close>

definition built :: "env \<Rightarrow> params \<Rightarrow> self \<Rightarrow> statement \<Rightarrow> bool" where
  "built e p s st \<longleftrightarrow>
     (case where_keys e p s of
        Inl err \<Rightarrow> st = Insert (table_name s) (new_values s)
      | Inr w \<Rightarrow>
          st = Insert (table_name s) (new_values s) \<or>
          st = Select (table_name s) w (param_distinct p) (param_state p = SCount) \<or>
          st = Update (table_name s) w
                 (filter (\<lambda>(col, v). col \<notin> set (self_keys s)) (new_values s)) \<or>
          st = Delete (table_name s) w)"

text \<open>
  A type table whose coercion functions reject \<^verbatim>\<open>None\<close>, used to state that
  \<^verbatim>\<open>format_rows\<close> never hands \<^verbatim>\<open>None\<close> to a coercion function.
\<close>

definition reject_none :: "type_entry \<Rightarrow> type_entry" where
  "reject_none entry = entry\<lparr>python := (\<lambda>v. if v = VNone then Inl TypeError else python entry v)\<rparr>"

definition with_strict_types :: "self \<Rightarrow> self" where
  "with_strict_types s =
     s\<lparr>type_for_column := map (\<lambda>(col, entry). (col, reject_none entry)) (type_for_column s)\<rparr>"

section \<open>A driver in memory\<close>

text \<open>
  Modelled from the spec: the database capability, which is outside the repository
  (``an interface capable of executing parameterized select/insert/update/delete
  statements and reporting whether a named table exists''). The database is the list of
  rows of one table named \<^verbatim>\<open>test\<close>; a row holds the columns it was inserted with. A
  WHERE clause selects the rows on which it holds: an equality holds when the row has
  the column with an equal value, a column alone holds when its value is a number other
  than zero or \<^verbatim>\<open>True\<close>, the constant \<^verbatim>\<open>False\<close> holds on no row, and a conjunction or
  disjunction holds as its arguments do. The other operators are not evaluated: they
  hold on no row.
\<close>

fun holds :: "pred \<Rightarrow> row \<Rightarrow> bool" where
  "holds (PEq c (PVal v)) row = (case map_of row c of None \<Rightarrow> False | Some rv \<Rightarrow> py_eq v rv)"
| "holds (PEq c (PDict d)) row = False"
| "holds (PCol c) row =
     (case map_of row c of
        Some (VInt i) \<Rightarrow> i \<noteq> 0
      | Some (VBool b) \<Rightarrow> b
      | _ \<Rightarrow> False)"
| "holds (POp c k v) row = False"
| "holds PFalse row = False"
| "holds (PObj a) row = False"
| "holds (PObjOp a k v) row = False"
| "holds (PAnd ps) row = (\<forall>q \<in> set ps. holds q row)"
| "holds (POr ps) row = (\<exists>q \<in> set ps. holds q row)"

definition where_holds :: "pred option \<Rightarrow> row \<Rightarrow> bool" where
  "where_holds w row = (case w of None \<Rightarrow> True | Some q \<Rightarrow> holds q row)"

definition mem_query :: "row list \<Rightarrow> statement \<Rightarrow> error + row list" where
  "mem_query db st =
     (case st of
        Select t w d c \<Rightarrow>
          (let found = filter (where_holds w) db in
           Inr (if c then [[(''tbl_row_count'', VInt (int (length found)))]]
                else if d then remdups found else found))
      | _ \<Rightarrow> Inl DatabaseError)"

definition mem_write :: "row list \<Rightarrow> statement \<Rightarrow> error + row list" where
  "mem_write db st =
     (case st of
        Insert t vs \<Rightarrow> Inr (db @ [vs])
      | Update t w vs \<Rightarrow>
          Inr (map (\<lambda>row. if where_holds w row
                           then fold (\<lambda>(col, v). AList.update col v) vs row else row) db)
      | Delete t w \<Rightarrow> Inr (filter (\<lambda>row. \<not> where_holds w row) db)
      | _ \<Rightarrow> Inl DatabaseError)"

definition mem_driver :: "(row list) driver" where
  "mem_driver = \<lparr>has_table = (\<lambda>db t. t = ''test''), run_query = mem_query, run_write = mem_write\<rparr>"

text \<open>
  An environment for the examples: a fixed clock, a parser that knows one date and one
  timestamp, a column collection with the attributes \<^verbatim>\<open>keys\<close>, \<^verbatim>\<open>values\<close>,
  \<^verbatim>\<open>items\<close> and \<^verbatim>\<open>get\<close>, and columns that offer the operator \<^verbatim>\<open>ilike\<close>.
\<close>

definition example_env :: env where
  "example_env =
     \<lparr>now = DateTime (Date 2020 5 1) 12 15 0 0,
      strptime = (\<lambda>text fmt.
        if text = ''2020-05-01'' \<and> fmt = ''%Y-%m-%d'' then Some (DateTime (Date 2020 5 1) 0 0 0 0)
        else if text = ''2020-05-01 12:15:00'' \<and> fmt = ''%Y-%m-%d %H:%M:%S''
          then Some (DateTime (Date 2020 5 1) 12 15 0 0)
        else None),
      collection_attr = (\<lambda>name. name \<in> set [''keys'', ''values'', ''items'', ''get'']),
      column_getattr = (\<lambda>column key.
        case column of
          Column c \<Rightarrow> if key = ''ilike'' then Some Method else None
        | CollectionAttr a \<Rightarrow> None)\<rparr>"

text \<open>
  The request of the first example of the module's documentation, reduced to two
  columns: ensure \<^verbatim>\<open>col2 = 1\<close> where \<^verbatim>\<open>col1 = 'blubb'\<close>.
\<close>

definition example_params :: params where
  "example_params =
     \<lparr>param_table = ''test'', param_keys = [''col1''],
      param_columns =
        [\<lparr>arg_name = ''col1'', arg_type = ''String'', arg_value = Some (VStr ''blubb'')\<rparr>,
         \<lparr>arg_name = ''col2'', arg_type = ''Integer'', arg_value = Some (VInt 1)\<rparr>],
      param_state = SPresent, param_distinct = False, param_filter = [], check_mode = False\<rparr>"

definition example_self :: self where
  "example_self =
     \<lparr>self_keys = [''col1''],
      new_values = [(''col1'', VStr ''blubb''), (''col2'', VInt 1)],
      type_for_column =
        [(''col1'', \<lparr>sqlalchemy = SA_String, python = py_str\<rparr>),
         (''col2'', \<lparr>sqlalchemy = SA_Integer, python = py_int\<rparr>)],
      table_name = ''test'',
      table_columns = [(''col1'', SA_String), (''col2'', SA_Integer)]\<rparr>"

text \<open>A request on a table whose key column is named \<^verbatim>\<open>keys\<close>.\<close>

definition keys_params :: params where
  "keys_params =
     \<lparr>param_table = ''test'', param_keys = [''keys''],
      param_columns =
        [\<lparr>arg_name = ''keys'', arg_type = ''String'', arg_value = Some (VStr ''blubb'')\<rparr>],
      param_state = SPresent, param_distinct = False, param_filter = [], check_mode = False\<rparr>"

definition keys_self :: self where
  "keys_self =
     \<lparr>self_keys = [''keys''],
      new_values = [(''keys'', VStr ''blubb'')],
      type_for_column = [(''keys'', \<lparr>sqlalchemy = SA_String, python = py_str\<rparr>)],
      table_name = ''test'',
      table_columns = [(''keys'', SA_String)]\<rparr>"

definition example_row :: row where
  "example_row = [(''col1'', VStr ''blubb''), (''col2'', VInt 1)]"

definition example_where :: "pred option" where
  "example_where = Some (PAnd [PEq ''col1'' (PVal (VStr ''blubb''))])"

section \<open>Unfolding the definitions\<close>

lemmas example_defs =
  example_env_def example_params_def example_self_def example_row_def example_where_def
  keys_params_def keys_self_def
  mem_driver_def mem_query_def mem_write_def where_holds_def

lemmas engine_defs =
  SQLQuery_init_def run_present_def run_absent_def run_insert_def reread_and_exit_def
  exit_json_def select_rows_def insert_row_def update_rows_def delete_rows_def
  execute_write_def where_keys_def where_column_helper_def filter_leaf_def subscript_def
  create_table_def TYPE_FOR_NAME_def Let_def final_db_def executed_def reported_changed_def
  py_ne_def

lemma example_create: "create_table example_env example_params = Inr example_self"
  by (simp add: example_defs engine_defs)

section \<open>The filter and the key equalities\<close>

text \<open>
  \<^verbatim>\<open>_split_filter\<close> only appends to \<^verbatim>\<open>args\<close>: what it adds does not depend on what the
  list held before.
\<close>

lemma split_filter_acc:
  "split_filter e s args fltrs =
     (case split_filter e s [] fltrs of Inl err \<Rightarrow> Inl err | Inr xs \<Rightarrow> Inr (args @ xs))"
proof (induction fltrs arbitrary: args)
  case Nil
  show ?case by simp
next
  case (Cons kv fltrs)
  obtain key node where kv: "kv = (key, node)" by (cases kv)
  have step: "split_filter e s (args @ [a]) fltrs =
      (case split_filter e s [a] fltrs of Inl err \<Rightarrow> Inl err | Inr xs \<Rightarrow> Inr (args @ xs))" for a
    using Cons.IH [of "args @ [a]"] Cons.IH [of "[a]"]
    by (simp split: sum.splits)
  show ?case
    unfolding kv
    by (simp add: step split: sum.splits)
qed

text \<open>
  \<^verbatim>\<open>create_table\<close> keeps the keys and the table name of the request, and every column
  with a declared value is a column of the table.
\<close>

lemma create_columns_frame:
  "create_columns e cols s = Inr s' \<Longrightarrow>
     self_keys s' = self_keys s \<and> table_name s' = table_name s"
  by (induction cols arbitrary: s) (auto split: option.splits sum.splits if_splits)

lemma create_columns_declared:
  "create_columns e cols s = Inr s' \<Longrightarrow>
     fst ` set (new_values s) \<subseteq> fst ` set (table_columns s) \<Longrightarrow>
     fst ` set (new_values s') \<subseteq> fst ` set (table_columns s')"
proof (induction cols arbitrary: s)
  case Nil
  then show ?case by simp
next
  case (Cons arg cols)
  from Cons.prems(1) obtain entry v where
    run: "create_columns e cols
            (s\<lparr>table_columns := table_columns s @ [(arg_name arg, sqlalchemy entry)],
               new_values :=
                 (if arg_value arg \<noteq> None then AList.update (arg_name arg) v (new_values s)
                  else new_values s),
               type_for_column := AList.update (arg_name arg) entry (type_for_column s)\<rparr>) = Inr s'"
    by (auto split: option.splits sum.splits)
  show ?case
  proof (rule Cons.IH [OF run])
    show "fst ` set (new_values (s\<lparr>table_columns := table_columns s @ [(arg_name arg, sqlalchemy entry)],
               new_values :=
                 (if arg_value arg \<noteq> None then AList.update (arg_name arg) v (new_values s)
                  else new_values s),
               type_for_column := AList.update (arg_name arg) entry (type_for_column s)\<rparr>))
          \<subseteq> fst ` set (table_columns (s\<lparr>table_columns := table_columns s @ [(arg_name arg, sqlalchemy entry)],
               new_values :=
                 (if arg_value arg \<noteq> None then AList.update (arg_name arg) v (new_values s)
                  else new_values s),
               type_for_column := AList.update (arg_name arg) entry (type_for_column s)\<rparr>))"
      using Cons.prems(2) by (auto simp: dom_update simp del: AList.update.simps)
  qed
qed

lemma create_table_declared:
  "create_table e p = Inr s \<Longrightarrow> fst ` set (new_values s) \<subseteq> fst ` set (table_columns s)"
  unfolding create_table_def by (erule create_columns_declared) simp

lemma create_table_frame:
  "create_table e p = Inr s \<Longrightarrow> self_keys s = param_keys p \<and> table_name s = param_table p"
  unfolding create_table_def by (drule create_columns_frame) simp

lemma key_args_eq:
  "fst ` set (new_values s) \<subseteq> fst ` set (table_columns s) \<Longrightarrow>
   \<forall>k \<in> set ks. \<not> collection_attr e k \<Longrightarrow>
   key_args e s args ks =
     Inr (args @ List.map_filter
            (\<lambda>k. map_option (\<lambda>v. PEq k (PVal v)) (map_of (new_values s) k)) ks)"
proof (induction ks arbitrary: args)
  case Nil
  show ?case by (simp add: List.map_filter_simps)
next
  case (Cons k ks)
  show ?case
  proof (cases "map_of (new_values s) k")
    case None
    then show ?thesis using Cons by (simp add: List.map_filter_simps)
  next
    case (Some v)
    then have "k \<in> fst ` set (new_values s)"
      by (metis map_of_eq_None_iff option.distinct(1))
    with Cons.prems have "k \<in> fst ` set (table_columns s)" by blast
    with Cons.prems(2) have "where_column_helper e s (PVal (VStr k)) = Inr (Column k)"
      by (simp add: where_column_helper_def)
    then show ?thesis using Some Cons by (simp add: List.map_filter_simps)
  qed
qed

section \<open>The statements of a call\<close>

text \<open>
  The four ways \<^verbatim>\<open>__init__\<close> can go: the table is missing, the columns cannot be set
  up, the first read raises, or the state is dispatched on the rows read.
\<close>

lemma SQLQuery_init_cases:
  obtains
    (no_table) "\<not> has_table drv db (param_table p)"
      "SQLQuery_init drv e p db = (Inl (FailJson ''table does not exist''), db, [])"
  | (bad_columns) err where "has_table drv db (param_table p)" "create_table e p = Inl err"
      "SQLQuery_init drv e p db = (Inl err, db, [])"
  | (read_fails) s err lg where "has_table drv db (param_table p)" "create_table e p = Inr s"
      "select_rows drv e p s db = (Inl err, lg)" "SQLQuery_init drv e p db = (Inl err, db, lg)"
  | (dispatch) s rws lg where "has_table drv db (param_table p)" "create_table e p = Inr s"
      "select_rows drv e p s db = (Inr rws, lg)"
      "SQLQuery_init drv e p db =
         (case param_state p of
            SPresent \<Rightarrow> run_present drv e p s db rws lg
          | SAbsent \<Rightarrow> run_absent drv e p s db rws lg
          | SInsert \<Rightarrow> run_insert drv e p s db lg
          | _ \<Rightarrow> (exit_json False (format_rows s (RowList rws)), db, lg))"
proof (cases "has_table drv db (param_table p)")
  case False
  then show ?thesis by (intro no_table) (simp_all add: SQLQuery_init_def)
next
  case True
  show ?thesis
  proof (cases "create_table e p")
    case (Inl err)
    with True show ?thesis by (intro bad_columns [of err]) (simp_all add: SQLQuery_init_def)
  next
    case (Inr s)
    obtain r lg where sel: "select_rows drv e p s db = (r, lg)"
      by (cases "select_rows drv e p s db")
    show ?thesis
    proof (cases r)
      case (Inl err)
      with True Inr sel show ?thesis
        by (intro read_fails [of s err lg]) (simp_all add: SQLQuery_init_def)
    next
      case rws: (Inr rws)
      with True Inr sel show ?thesis
        by (intro dispatch [of s rws lg]) (simp_all add: SQLQuery_init_def split: state.splits)
    qed
  qed
qed

lemma execute_write_log: "executed (execute_write drv db st) = [st]"
  by (simp add: execute_write_def executed_def split: sum.splits)

lemma select_rows_built: "list_all (built e p s) (snd (select_rows drv e p s db))"
  by (simp add: select_rows_def Let_def built_def split: sum.splits)

lemma insert_row_built: "list_all (built e p s) (executed (insert_row drv s db))"
  by (simp add: insert_row_def execute_write_log built_def split: sum.splits)

lemma update_rows_built: "list_all (built e p s) (executed (update_rows drv e p s db))"
  by (simp add: update_rows_def execute_write_log built_def split: sum.splits)
     (simp add: executed_def)

lemma delete_rows_built: "list_all (built e p s) (executed (delete_rows drv e p s db))"
  by (simp add: delete_rows_def execute_write_log built_def split: sum.splits)
     (simp add: executed_def)

lemma reread_and_exit_frame:
  "final_db (reread_and_exit drv e p s db c lg) = db \<and>
   executed (reread_and_exit drv e p s db c lg) = lg @ snd (select_rows drv e p s db)"
  by (simp add: reread_and_exit_def final_db_def executed_def split: prod.splits sum.splits)

lemma reread_and_exit_built:
  "list_all (built e p s) lg \<Longrightarrow>
   list_all (built e p s) (executed (reread_and_exit drv e p s db c lg))"
  by (simp add: reread_and_exit_frame select_rows_built)

lemma run_absent_built:
  assumes "list_all (built e p s) lg"
  shows "list_all (built e p s) (executed (run_absent drv e p s db rws lg))"
proof -
  obtain r db' lg' where del: "delete_rows drv e p s db = (r, db', lg')"
    by (cases "delete_rows drv e p s db")
  with delete_rows_built [of e p s drv db] have "list_all (built e p s) lg'"
    by (simp add: executed_def)
  with assms del show ?thesis
    by (cases r) (simp_all add: run_absent_def Let_def executed_def)
qed

lemma run_insert_built:
  assumes "list_all (built e p s) lg"
  shows "list_all (built e p s) (executed (run_insert drv e p s db lg))"
proof -
  obtain r db' lg' where ins: "insert_row drv s db = (r, db', lg')"
    by (cases "insert_row drv s db")
  with insert_row_built [of e p s drv db] have "list_all (built e p s) lg'"
    by (simp add: executed_def)
  with assms have both: "list_all (built e p s) (lg @ lg')" by simp
  show ?thesis
  proof (cases r)
    case (Inl err)
    with ins both reread_and_exit_built [OF assms, of drv db True] show ?thesis
      by (simp add: run_insert_def) (simp add: executed_def)
  next
    case (Inr u)
    with ins reread_and_exit_built [OF both, of drv db' True]
      reread_and_exit_built [OF assms, of drv db True]
    show ?thesis by (simp add: run_insert_def)
  qed
qed

lemma run_present_built:
  assumes "list_all (built e p s) lg"
  shows "list_all (built e p s) (executed (run_present drv e p s db rws lg))"
proof (cases "if length rws < 1 then Inr True else compare_rows s rws")
  case (Inl err)
  with assms show ?thesis by (simp add: run_present_def executed_def)
next
  case c: (Inr c)
  obtain r db' lg' where wr:
    "(if length rws < 1 then insert_row drv s db else update_rows drv e p s db) = (r, db', lg')"
    by (cases "if length rws < 1 then insert_row drv s db else update_rows drv e p s db")
  with insert_row_built [of e p s drv db] update_rows_built [of e p s drv db]
  have "list_all (built e p s) lg'"
    by (simp add: executed_def split: if_splits)
  with assms have both: "list_all (built e p s) (lg @ lg')" by simp
  show ?thesis
  proof (cases r)
    case (Inl err)
    with c wr both assms show ?thesis
      by (simp add: run_present_def executed_def)
  next
    case (Inr u)
    with c wr assms reread_and_exit_built [OF both, of drv db' True] show ?thesis
      by (simp add: run_present_def) (simp add: executed_def)
  qed
qed

lemma SQLQuery_init_built:
  assumes "create_table e p = Inr s"
  shows "list_all (built e p s) (executed (SQLQuery_init drv e p db))"
proof (cases rule: SQLQuery_init_cases [of drv db p e])
  case no_table
  then show ?thesis by (simp add: executed_def)
next
  case (bad_columns err)
  then show ?thesis by (simp add: executed_def)
next
  case (read_fails s' err lg)
  with assms select_rows_built [of e p s drv db] show ?thesis by (simp add: executed_def)
next
  case (dispatch s' rws lg)
  with assms select_rows_built [of e p s drv db]
  have s': "s' = s" and lg: "list_all (built e p s) lg"
    by simp_all
  from run_absent_built [OF lg, of drv db rws] run_insert_built [OF lg, of drv db]
    run_present_built [OF lg, of drv db rws] lg
  show ?thesis unfolding dispatch(4) s'
    by (cases "param_state p") (simp_all, simp_all add: executed_def)
qed

lemma SQLQuery_init_no_columns:
  "create_table e p = Inl err \<Longrightarrow> executed (SQLQuery_init drv e p db) = []"
  by (simp add: SQLQuery_init_def executed_def)


lemma built_where:
  "built e p s st \<Longrightarrow> statement_where st = Some w \<Longrightarrow> where_keys e p s = Inr w"
  by (auto simp: built_def split: sum.splits)

lemma built_distinct:
  "built e p s st \<Longrightarrow> select_distinct st = None \<or> select_distinct st = Some (param_distinct p)"
  by (auto simp: built_def split: sum.splits)

lemma set_spec_key_equalities:
  "set (spec_key_equalities s) =
     {PEq k (PVal v) | k v. k \<in> set (self_keys s) \<and> map_of (new_values s) k = Some v}"
  by (force simp: spec_key_equalities_def List.map_filter_def image_iff)

lemma select_rows_reads:
  "list_all is_select (snd (select_rows drv e p s db)) \<and>
   length (snd (select_rows drv e p s db)) \<le> 1"
  by (simp add: select_rows_def Let_def split: sum.splits)

lemma select_rows_where:
  "select_rows drv e p s db = (Inr rws, lg) \<Longrightarrow>
     \<exists>w. where_keys e p s = Inr w \<and>
         lg = [Select (table_name s) w (param_distinct p) (param_state p = SCount)]"
  by (auto simp: select_rows_def Let_def split: sum.splits)

lemma run_absent_check:
  "check_mode p \<Longrightarrow>
   run_absent drv e p s db rws lg = (Inr \<lparr>changed = (rws \<noteq> []), rows = None\<rparr>, db, lg)"
  by (auto simp: run_absent_def Let_def)

lemma run_insert_check:
  "check_mode p \<Longrightarrow> run_insert drv e p s db lg = reread_and_exit drv e p s db True lg"
  by (simp add: run_insert_def)

lemma run_present_check:
  "check_mode p \<Longrightarrow>
   final_db (run_present drv e p s db rws lg) = db \<and>
   executed (run_present drv e p s db rws lg) = lg"
  by (simp add: run_present_def final_db_def executed_def split: sum.splits)

section \<open>The WHERE clause\<close>

text \<open>
  When no key is named like an attribute of the column collection, the WHERE clause
  that \<^verbatim>\<open>where_keys\<close> attaches is the conjunction \<^verbatim>\<open>and_\<close> of the key equalities
  followed by the predicates compiled from the filter (no clause at all when both are
  empty), and it fails exactly when the filter fails to compile. The key equalities are
  \<^verbatim>\<open>column == declaredValue\<close> for the names in \<^verbatim>\<open>keys\<close> that have a declared value and
  nothing else. Every select, update and delete a call hands to the driver carries the
  clause of \<^verbatim>\<open>where_keys\<close>.
\<close>

lemma where_keys_clause:
  assumes "create_table e p = Inr s" and "\<forall>k \<in> set (self_keys s). \<not> collection_attr e k"
  shows "where_keys e p s =
           (case split_filter e s [] (param_filter p) of
              Inl err \<Rightarrow> Inl err
            | Inr compiled \<Rightarrow>
                Inr (if spec_key_equalities s @ compiled = [] then None
                     else Some (PAnd (spec_key_equalities s @ compiled))))"
proof -
  have keys: "key_args e s [] (self_keys s) = Inr (spec_key_equalities s)"
    using key_args_eq [OF create_table_declared [OF assms(1)] assms(2), of "[]"]
    by (simp add: spec_key_equalities_def)
  show ?thesis
  proof (cases "param_filter p = []")
    case True
    then show ?thesis by (simp add: where_keys_def keys)
  next
    case False
    then show ?thesis
      using split_filter_acc [of e s "spec_key_equalities s" "param_filter p"]
      by (simp add: where_keys_def keys split: sum.splits)
  qed
qed

lemma executed_where:
  assumes "create_table e p = Inr s"
  shows "\<forall>st \<in> set (executed (SQLQuery_init drv e p db)).
           \<forall>w. statement_where st = Some w \<longrightarrow> where_keys e p s = Inr w"
  using SQLQuery_init_built [OF assms, of drv db]
  by (auto simp: list_all_iff dest: built_where)

lemma example_where_keys:
  "where_keys example_env example_params example_self = Inr example_where"
  by (simp add: example_defs engine_defs)

text \<open>
  Claim C7 says that every key with a declared value contributes the equality
  \<^verbatim>\<open>column = declaredValue\<close>. The helper looks the column up with
  \<^verbatim>\<open>getattr(self.table.c, name)\<close>, which finds the methods of the collection before its
  columns. For the request with the key column \<^verbatim>\<open>keys\<close> and the declared value
  \<^verbatim>\<open>blubb\<close> the key equality of the claim is \<^verbatim>\<open>keys = 'blubb'\<close>; the source compares
  the method \<^verbatim>\<open>keys\<close> with the value, which is \<^verbatim>\<open>False\<close>, and the clause is
  \<^verbatim>\<open>and_(False)\<close>. On a table that holds the row already, the call finds no row and
  inserts it again.
\<close>

theorem C7_key_named_keys:
  "create_table example_env keys_params = Inr keys_self
   \<and> spec_key_equalities keys_self = [PEq ''keys'' (PVal (VStr ''blubb''))]
   \<and> where_keys example_env keys_params keys_self = Inr (Some (PAnd [PFalse]))
   \<and> SQLQuery_init mem_driver example_env keys_params [[(''keys'', VStr ''blubb'')]] =
       (Inr \<lparr>changed = True, rows = Some []\<rparr>,
        [[(''keys'', VStr ''blubb'')], [(''keys'', VStr ''blubb'')]],
        [Select ''test'' (Some (PAnd [PFalse])) False False,
         Insert ''test'' [(''keys'', VStr ''blubb'')],
         Select ''test'' (Some (PAnd [PFalse])) False False])"
  by (simp add: example_defs engine_defs spec_key_equalities_def List.map_filter_def)

section \<open>The filter operator \<^verbatim>\<open>ne\<close>\<close>

text \<open>
  Claim C2 says that a filter leaf \<^verbatim>\<open>ne\<close> compiles to \<^verbatim>\<open>column != value\<close>. The source
  appends the column object alone. For the request of the example with the filter
  \<^verbatim>\<open>{ne: {column: col2, value: 21}}\<close> the clause is the key equality and the bare column
  \<^verbatim>\<open>col2\<close>; and for any leaf \<^verbatim>\<open>ne\<close> the compiled predicate is the same whatever the
  value is.
\<close>

theorem C2_ne_ignores_value:
  "where_keys example_env
     (example_params\<lparr>param_filter :=
        [(''ne'', PDict [(''column'', PVal (VStr ''col2'')), (''value'', PVal (VInt 21))])]\<rparr>)
     example_self = Inr (Some (PAnd [PEq ''col1'' (PVal (VStr ''blubb'')), PCol ''col2'']))
   \<and> filter_leaf e s ''ne'' (PDict [(''column'', c), (''value'', v)])
       = filter_leaf e s ''ne'' (PDict [(''column'', c), (''value'', v')])"
proof
  show "where_keys example_env
     (example_params\<lparr>param_filter :=
        [(''ne'', PDict [(''column'', PVal (VStr ''col2'')), (''value'', PVal (VInt 21))])]\<rparr>)
     example_self = Inr (Some (PAnd [PEq ''col1'' (PVal (VStr ''blubb'')), PCol ''col2'']))"
    by (simp add: example_defs engine_defs)
  show "filter_leaf e s ''ne'' (PDict [(''column'', c), (''value'', v)])
       = filter_leaf e s ''ne'' (PDict [(''column'', c), (''value'', v')])"
    by (simp add: filter_leaf_def subscript_def split: sum.splits)
qed

section \<open>Check mode of state \<^verbatim>\<open>present\<close>\<close>

text \<open>
  Whatever the driver: a \<^verbatim>\<open>present\<close> request in check mode with at least one declared
  value raises \<^verbatim>\<open>AttributeError\<close> as soon as the read and the comparison succeed.
\<close>

lemma present_check_mode_raises:
  assumes "param_state p = SPresent" and "check_mode p"
    and "has_table drv db (param_table p)"
    and "create_table e p = Inr s" and "new_values s \<noteq> []"
    and "select_rows drv e p s db = (Inr rws, lg)"
    and "rws = [] \<or> compare_rows s rws = Inr c"
  shows "SQLQuery_init drv e p db = (Inl AttributeError, db, lg)"
proof -
  obtain kv kvs where nv: "new_values s = kv # kvs"
    using assms(5) by (cases "new_values s") simp_all
  have "run_present drv e p s db rws lg = (Inl AttributeError, db, lg)"
    using assms(2,7) nv by (auto simp: run_present_def exit_json_def)
  with assms(1,3,4,6) show ?thesis by (simp add: SQLQuery_init_def)
qed

text \<open>
  Claim C3 says that a \<^verbatim>\<open>present\<close> request in check mode returns the mapping of the
  declared values. The source hands that dictionary to \<^verbatim>\<open>format_rows\<close>, which iterates
  its keys and calls \<^verbatim>\<open>.keys()\<close> on the first of them: for the request of the example,
  run in check mode on an empty table, the call reads once and raises
  \<^verbatim>\<open>AttributeError\<close>.
\<close>

theorem C3_check_mode_present_raises:
  "SQLQuery_init mem_driver example_env (example_params\<lparr>check_mode := True\<rparr>) [] =
     (Inl AttributeError, [], [Select ''test'' example_where False False])"
  by (simp add: example_defs engine_defs)


section \<open>The flag \<^verbatim>\<open>distinct\<close>\<close>

text \<open>
  Claim C4 says that \<^verbatim>\<open>distinct\<close> has no effect on the read statements outside state
  \<^verbatim>\<open>select\<close>. Counterexample: in state \<^verbatim>\<open>present\<close> the read statement of the example
  request carries DISTINCT when the flag is set and does not when it is not.
\<close>

theorem C4_distinct_in_present_counterexample:
  "param_state (example_params\<lparr>param_distinct := True\<rparr>) \<noteq> SSelect \<and>
   executed (SQLQuery_init mem_driver example_env
              (example_params\<lparr>param_distinct := True\<rparr>) [example_row])
     = [Select ''test'' example_where True False] \<and>
   executed (SQLQuery_init mem_driver example_env
              (example_params\<lparr>param_distinct := False\<rparr>) [example_row])
     = [Select ''test'' example_where False False]"
  by (simp add: example_defs engine_defs)

text \<open>
  Claim C4 as amended: in every state, each read statement a call hands to the driver
  carries DISTINCT exactly when the flag \<^verbatim>\<open>distinct\<close> of the request is set; the other
  statements have no such flag.
\<close>

theorem C4_distinct_every_mode:
  "\<forall>st \<in> set (executed (SQLQuery_init drv e p db)).
      select_distinct st = None \<or> select_distinct st = Some (param_distinct p)"
proof (cases "create_table e p")
  case (Inl err)
  then show ?thesis by (simp add: SQLQuery_init_no_columns)
next
  case (Inr s)
  from SQLQuery_init_built [OF this, of drv db] show ?thesis
    by (auto simp: list_all_iff dest: built_distinct)
qed

theorem C4_distinct_every_mode_witness:
  "Select ''test'' example_where True False
     \<in> set (executed (SQLQuery_init mem_driver example_env
                (example_params\<lparr>param_distinct := True\<rparr>) [example_row])) \<and>
   select_distinct (Select ''test'' example_where True False)
     = Some (param_distinct (example_params\<lparr>param_distinct := True\<rparr>))"
proof -
  have mem: "Select ''test'' example_where True False
     \<in> set (executed (SQLQuery_init mem_driver example_env
                (example_params\<lparr>param_distinct := True\<rparr>) [example_row]))"
    by (simp add: example_defs engine_defs)
  from C4_distinct_every_mode [of mem_driver example_env
         "example_params\<lparr>param_distinct := True\<rparr>" "[example_row]"] mem
  have "select_distinct (Select ''test'' example_where True False) = None \<or>
        select_distinct (Select ''test'' example_where True False)
          = Some (param_distinct (example_params\<lparr>param_distinct := True\<rparr>))"
    by blast
  with mem show ?thesis by simp
qed

section \<open>Read-only calls\<close>

text \<open>
  In state \<^verbatim>\<open>select\<close> or \<^verbatim>\<open>count\<close>, whatever the check mode and the rows found: the
  database after the call is the database before it, every statement handed to the
  driver is a select, the call never exits with \<^verbatim>\<open>changed=True\<close>, and when the table
  exists, the columns are accepted, the read succeeds and the rows can be formatted, it
  exits with \<^verbatim>\<open>changed=False\<close> and the formatted rows.
\<close>

lemma select_count_read_only:
  assumes "param_state p = SSelect \<or> param_state p = SCount"
  shows "final_db (SQLQuery_init drv e p db) = db \<and>
         list_all is_select (executed (SQLQuery_init drv e p db)) \<and>
         reported_changed (SQLQuery_init drv e p db) \<noteq> Some True \<and>
         (\<forall>s rws lg frows.
            has_table drv db (param_table p) \<longrightarrow> create_table e p = Inr s \<longrightarrow>
            select_rows drv e p s db = (Inr rws, lg) \<longrightarrow>
            format_rows s (RowList rws) = Inr frows \<longrightarrow>
            fst (SQLQuery_init drv e p db) = Inr \<lparr>changed = False, rows = Some frows\<rparr>)"
proof (cases rule: SQLQuery_init_cases [of drv db p e])
  case no_table
  then show ?thesis by (simp add: final_db_def executed_def reported_changed_def)
next
  case (bad_columns err)
  then show ?thesis by (simp add: final_db_def executed_def reported_changed_def)
next
  case (read_fails s err lg)
  with select_rows_reads [of drv e p s db] show ?thesis
    by (simp add: final_db_def executed_def reported_changed_def)
next
  case (dispatch s rws lg)
  with select_rows_reads [of drv e p s db] have lg: "list_all is_select lg" by simp
  from assms dispatch(4)
  have run: "SQLQuery_init drv e p db = (exit_json False (format_rows s (RowList rws)), db, lg)"
    by auto
  show ?thesis
    unfolding run using lg dispatch(2,3)
    by (simp add: final_db_def executed_def reported_changed_def exit_json_def split: sum.splits)
qed

lemma example_select_run:
  "SQLQuery_init mem_driver example_env (example_params\<lparr>param_state := SSelect\<rparr>) [example_row]
     = (Inr \<lparr>changed = False, rows = Some [example_row]\<rparr>, [example_row],
        [Select ''test'' example_where False False])"
  by (simp add: example_defs engine_defs)

text \<open>
  In state \<^verbatim>\<open>count\<close> the read is \<^verbatim>\<open>stmt.count()\<close>, whose row holds the count in a
  column of the library's naming. Whatever the driver: when the first column of the
  first row read is not a declared column, \<^verbatim>\<open>format_rows\<close> finds no type for it and
  raises \<^verbatim>\<open>KeyError\<close>.
\<close>

lemma count_raises:
  assumes "param_state p = SCount" and "has_table drv db (param_table p)"
    and "create_table e p = Inr s"
    and "select_rows drv e p s db = (Inr (((col, v) # row) # rws), lg)"
    and "map_of (type_for_column s) col = None"
  shows "SQLQuery_init drv e p db = (Inl KeyError, db, lg)"
  using assms by (simp add: SQLQuery_init_def exit_json_def)

text \<open>
  Claim C5 says that a call in state \<^verbatim>\<open>select\<close> or \<^verbatim>\<open>count\<close> returns
  \<^verbatim>\<open>changed=False\<close> and executes no mutating statement. The second part holds of the
  source and so does the first in state \<^verbatim>\<open>select\<close>. In state \<^verbatim>\<open>count\<close> the call does
  not return: for the request of the example on a table that holds its row, the count
  is read (one select, with \<^verbatim>\<open>count\<close> applied, and the database unchanged), the row
  read has the single column \<^verbatim>\<open>tbl_row_count\<close>, and \<^verbatim>\<open>format_rows\<close> raises
  \<^verbatim>\<open>KeyError\<close>.
\<close>

theorem C5_count_raises:
  "SQLQuery_init mem_driver example_env (example_params\<lparr>param_state := SCount\<rparr>) [example_row]
     = (Inl KeyError, [example_row], [Select ''test'' example_where False True])
   \<and> run_query mem_driver [example_row] (Select ''test'' example_where False True)
     = Inr [[(''tbl_row_count'', VInt 1)]]"
  by (simp add: example_defs engine_defs)

text \<open>
  Claim C6 says that in check mode nothing but the first read is executed.
  Counterexample: in state \<^verbatim>\<open>insert\<close> the read after the (skipped) insert is outside
  the test of the check mode, so two reads are executed.
\<close>

theorem C6_second_read_counterexample:
  "check_mode (example_params\<lparr>param_state := SInsert, check_mode := True\<rparr>) \<and>
   executed (SQLQuery_init mem_driver example_env
      (example_params\<lparr>param_state := SInsert, check_mode := True\<rparr>) []) =
   [Select ''test'' example_where False False, Select ''test'' example_where False False]"
  by (simp add: example_defs engine_defs)

text \<open>
  Claim C6 as amended: in check mode, in every state, the database after the call is
  the database before it and every statement handed to the driver is a select: the
  first read and, in state \<^verbatim>\<open>insert\<close> only, a second one.
\<close>

theorem C6_dry_run_reads_only:
  assumes "check_mode p"
  shows "final_db (SQLQuery_init drv e p db) = db \<and>
         list_all is_select (executed (SQLQuery_init drv e p db)) \<and>
         length (executed (SQLQuery_init drv e p db))
           \<le> (if param_state p = SInsert then 2 else 1)"
proof (cases rule: SQLQuery_init_cases [of drv db p e])
  case no_table
  then show ?thesis by (simp add: final_db_def executed_def)
next
  case (bad_columns err)
  then show ?thesis by (simp add: final_db_def executed_def)
next
  case (read_fails s err lg)
  with select_rows_reads [of drv e p s db] show ?thesis
    by (simp add: final_db_def executed_def)
next
  case (dispatch s rws lg)
  with select_rows_reads [of drv e p s db]
  have lg: "list_all is_select lg" "length lg \<le> 1" by simp_all
  show ?thesis
  proof (cases "param_state p")
    case SPresent
    with dispatch(4) lg run_present_check [OF assms, of drv e s db rws lg] show ?thesis
      by simp
  next
    case SAbsent
    with dispatch(4) lg run_absent_check [OF assms, of drv e s db rws lg] show ?thesis
      by (simp add: final_db_def executed_def)
  next
    case SSelect
    with dispatch(4) lg show ?thesis by (simp add: final_db_def executed_def)
  next
    case SInsert
    with dispatch(4) lg run_insert_check [OF assms, of drv e s db lg]
      reread_and_exit_frame [of drv e p s db True lg] select_rows_reads [of drv e p s db]
    show ?thesis by simp
  next
    case SCount
    with dispatch(4) lg show ?thesis by (simp add: final_db_def executed_def)
  qed
qed

theorem C6_dry_run_reads_only_witness:
  "check_mode (example_params\<lparr>param_state := SAbsent, check_mode := True\<rparr>) \<and>
   final_db (SQLQuery_init mem_driver example_env
               (example_params\<lparr>param_state := SAbsent, check_mode := True\<rparr>) [example_row])
     = [example_row] \<and>
   reported_changed (SQLQuery_init mem_driver example_env
               (example_params\<lparr>param_state := SAbsent, check_mode := True\<rparr>) [example_row])
     = Some True"
proof -
  have cm: "check_mode (example_params\<lparr>param_state := SAbsent, check_mode := True\<rparr>)"
    by simp
  have "reported_changed (SQLQuery_init mem_driver example_env
               (example_params\<lparr>param_state := SAbsent, check_mode := True\<rparr>) [example_row])
     = Some True"
    by (simp add: example_defs engine_defs)
  with cm C6_dry_run_reads_only [OF cm, of mem_driver example_env "[example_row]"]
  show ?thesis by simp
qed

text \<open>In check mode the statements handed to the driver are all the same statement.\<close>

lemma short_list_same: "length xs \<le> 1 \<Longrightarrow> \<forall>a \<in> set (xs @ xs). \<forall>b \<in> set (xs @ xs). a = b"
  by (cases xs) auto

lemma dry_run_same_statement:
  assumes "check_mode p"
  shows "\<forall>a \<in> set (executed (SQLQuery_init drv e p db)).
           \<forall>b \<in> set (executed (SQLQuery_init drv e p db)). a = b"
proof (cases rule: SQLQuery_init_cases [of drv db p e])
  case no_table
  then show ?thesis by (simp add: executed_def)
next
  case (bad_columns err)
  then show ?thesis by (simp add: executed_def)
next
  case (read_fails s err lg)
  with select_rows_reads [of drv e p s db] short_list_same [of lg] show ?thesis
    by (simp add: executed_def)
next
  case (dispatch s rws lg)
  with select_rows_reads [of drv e p s db]
  have lg: "length lg \<le> 1" and again: "snd (select_rows drv e p s db) = lg" by simp_all
  show ?thesis
  proof (cases "param_state p")
    case SPresent
    with dispatch(4) short_list_same [OF lg] run_present_check [OF assms, of drv e s db rws lg]
    show ?thesis by simp
  next
    case SAbsent
    with dispatch(4) short_list_same [OF lg] run_absent_check [OF assms, of drv e s db rws lg]
    show ?thesis by (simp add: executed_def)
  next
    case SSelect
    with dispatch(4) short_list_same [OF lg] show ?thesis by (simp add: executed_def)
  next
    case SInsert
    with dispatch(4) run_insert_check [OF assms, of drv e s db lg]
      reread_and_exit_frame [of drv e p s db True lg] again short_list_same [OF lg]
    show ?thesis by simp
  next
    case SCount
    with dispatch(4) short_list_same [OF lg] show ?thesis by (simp add: executed_def)
  qed
qed

section \<open>State \<^verbatim>\<open>absent\<close>\<close>

lemma run_absent_eq:
  assumes "where_keys e p s = Inr w"
  shows "run_absent drv e p s db rws lg =
     (if rws \<noteq> [] \<and> \<not> check_mode p then
        (case run_write drv db (Delete (table_name s) w) of
           Inl err \<Rightarrow> (Inl err, db, lg @ [Delete (table_name s) w])
         | Inr db' \<Rightarrow> (Inr \<lparr>changed = True, rows = None\<rparr>, db', lg @ [Delete (table_name s) w]))
      else (Inr \<lparr>changed = (rws \<noteq> []), rows = None\<rparr>, db, lg))"
  using assms
  by (auto simp: run_absent_def delete_rows_def execute_write_def Let_def split: sum.splits)

text \<open>
  Claim C8. In state \<^verbatim>\<open>absent\<close>, when the table exists, the columns are accepted and
  the first read returns its rows: a delete is handed to the driver exactly when the
  read returned at least one row and the call is not in check mode; a call that exits
  reports \<^verbatim>\<open>changed\<close> true exactly when the read returned at least one row, with
  \<^verbatim>\<open>rows=None\<close>; and the call exits unless that delete raises in the driver.
\<close>

theorem C8_absent_decision:
  assumes "param_state p = SAbsent"
    and "has_table drv db (param_table p)"
    and "create_table e p = Inr s"
    and "select_rows drv e p s db = (Inr rws, lg)"
  shows "(list_ex is_delete (executed (SQLQuery_init drv e p db)) = (rws \<noteq> [] \<and> \<not> check_mode p))
       \<and> (\<forall>r. fst (SQLQuery_init drv e p db) = Inr r \<longrightarrow> changed r = (rws \<noteq> []) \<and> rows r = None)
       \<and> (\<forall>err. fst (SQLQuery_init drv e p db) = Inl err \<longrightarrow>
             rws \<noteq> [] \<and> \<not> check_mode p \<and>
             (\<exists>st \<in> set (executed (SQLQuery_init drv e p db)).
                is_delete st \<and> run_write drv db st = Inl err))"
proof -
  from select_rows_where [OF assms(4)] obtain w where
    w: "where_keys e p s = Inr w" and
    lg: "lg = [Select (table_name s) w (param_distinct p) (param_state p = SCount)]"
    by blast
  have "SQLQuery_init drv e p db = run_absent drv e p s db rws lg"
    using assms by (simp add: SQLQuery_init_def)
  then show ?thesis
    unfolding run_absent_eq [OF w] lg
    by (auto simp: executed_def split: sum.splits)
qed

theorem C8_absent_decision_witness:
  "SQLQuery_init mem_driver example_env (example_params\<lparr>param_state := SAbsent\<rparr>) [example_row] =
     (Inr \<lparr>changed = True, rows = None\<rparr>, [],
      [Select ''test'' example_where False False, Delete ''test'' example_where])
   \<and> list_ex is_delete (executed (SQLQuery_init mem_driver example_env
         (example_params\<lparr>param_state := SAbsent\<rparr>) [example_row]))
   \<and> SQLQuery_init mem_driver example_env (example_params\<lparr>param_state := SAbsent\<rparr>) [] =
     (Inr \<lparr>changed = False, rows = None\<rparr>, [], [Select ''test'' example_where False False])"
proof -
  let ?p = "example_params\<lparr>param_state := SAbsent\<rparr>"
  have a: "param_state ?p = SAbsent" by simp
  have b: "has_table mem_driver [example_row] (param_table ?p)"
    by (simp add: example_defs)
  have c: "create_table example_env ?p = Inr example_self"
    by (simp add: example_defs engine_defs)
  have d: "select_rows mem_driver example_env ?p example_self [example_row] =
     (Inr [example_row], [Select ''test'' example_where False False])"
    by (simp add: example_defs engine_defs)
  have run1: "SQLQuery_init mem_driver example_env ?p [example_row] =
     (Inr \<lparr>changed = True, rows = None\<rparr>, [],
      [Select ''test'' example_where False False, Delete ''test'' example_where])"
    by (simp add: example_defs engine_defs)
  have run2: "SQLQuery_init mem_driver example_env ?p [] =
     (Inr \<lparr>changed = False, rows = None\<rparr>, [], [Select ''test'' example_where False False])"
    by (simp add: example_defs engine_defs)
  from C8_absent_decision [OF a b c d]
  have "list_ex is_delete (executed (SQLQuery_init mem_driver example_env ?p [example_row]))"
    by (simp add: example_params_def)
  with run1 run2 show ?thesis by simp
qed

section \<open>Idempotence of state \<^verbatim>\<open>present\<close>\<close>

text \<open>On a converged table no comparison finds a difference.\<close>

lemma compare_row_converged:
  "list_all (\<lambda>(col, v). case map_of row col of None \<Rightarrow> False | Some rv \<Rightarrow> py_eq v rv) nvs \<Longrightarrow>
   compare_row nvs row = Inr False"
  by (induction nvs) (auto simp: py_ne_def split: option.splits)

lemma compare_rows_converged:
  "list_all (\<lambda>row. list_all (\<lambda>(col, v). case map_of row col of
                                              None \<Rightarrow> False
                                            | Some rv \<Rightarrow> py_eq v rv) (new_values s)) rws \<Longrightarrow>
   compare_rows s rws = Inr False"
  by (induction rws) (simp_all add: compare_row_converged)

lemma run_present_converged:
  assumes "converged s rws"
  shows "run_present drv e p s db rws lg =
           (exit_json False
              (format_rows s (if check_mode p then RowDict (new_values s) else RowList rws)),
            db, lg)"
  using assms compare_rows_converged [of s rws]
  by (simp add: run_present_def converged_def)

text \<open>
  Python's \<^verbatim>\<open>==\<close> on the values is reflexive and transitive, so a row that agrees
  with the declared values satisfies every clause the declared values satisfy.
\<close>

lemma py_eq_refl: "py_eq a a"
  by (cases a) simp_all

lemma py_eq_trans: "py_eq a b \<Longrightarrow> py_eq b c \<Longrightarrow> py_eq a c"
  by (cases a; cases b; cases c) (auto split: if_splits)

lemma converged_agrees:
  "converged s rws \<longleftrightarrow> rws \<noteq> [] \<and> (\<forall>row \<in> set rws. agrees (new_values s) row)"
proof -
  have "(case map_of row col of None \<Rightarrow> False | Some rv \<Rightarrow> py_eq v rv) =
        (\<exists>rv. map_of row col = Some rv \<and> py_eq v rv)" for row :: row and col v
    by (cases "map_of row col") simp_all
  then show ?thesis
    by (simp add: converged_def agrees_def list_all_iff case_prod_beta)
qed

lemma agrees_holds:
  "agrees nvs row \<Longrightarrow> holds q nvs \<Longrightarrow> holds q row"
proof (induction q)
  case (PEq c x)
  show ?case
  proof (cases x)
    case (PVal xv)
    with PEq.prems(2) obtain v where v: "map_of nvs c = Some v" "py_eq xv v"
      by (auto split: option.splits)
    from v(1) have "(c, v) \<in> set nvs" by (rule map_of_SomeD)
    with PEq.prems(1) obtain rv where "map_of row c = Some rv" "py_eq v rv"
      by (auto simp: agrees_def)
    with v(2) PVal show ?thesis by (auto intro: py_eq_trans)
  next
    case (PDict d)
    with PEq.prems(2) show ?thesis by simp
  qed
next
  case (PCol c)
  from PCol.prems(2) obtain v where v: "map_of nvs c = Some v"
    and truth: "(\<exists>i. v = VInt i \<and> i \<noteq> 0) \<or> v = VBool True"
    by (auto split: option.splits val.splits)
  from v have "(c, v) \<in> set nvs" by (rule map_of_SomeD)
  with PCol.prems(1) obtain rv where rv: "map_of row c = Some rv" "py_eq v rv"
    by (auto simp: agrees_def)
  from truth rv show ?case by (cases rv) (auto split: if_splits)
next
  case (PAnd ps)
  then show ?case by auto
next
  case (POr ps)
  then show ?case by auto
qed simp_all

lemma where_holds_agrees:
  "agrees nvs row \<Longrightarrow> where_holds w nvs \<Longrightarrow> where_holds w row"
  by (cases w) (auto simp: where_holds_def intro: agrees_holds)

lemma agrees_self: "distinct (map fst nvs) \<Longrightarrow> agrees nvs nvs"
  by (auto simp: agrees_def py_eq_refl)

text \<open>\<^verbatim>\<open>self.new_values\<close> is a dictionary: \<^verbatim>\<open>create_table\<close> enters each column once.\<close>

lemma create_columns_distinct:
  "create_columns e cols s = Inr s' \<Longrightarrow> distinct (map fst (new_values s)) \<Longrightarrow>
   distinct (map fst (new_values s'))"
proof (induction cols arbitrary: s)
  case Nil
  then show ?case by simp
next
  case (Cons arg cols)
  from Cons.prems(1) obtain entry v where
    run: "create_columns e cols
            (s\<lparr>table_columns := table_columns s @ [(arg_name arg, sqlalchemy entry)],
               new_values :=
                 (if arg_value arg \<noteq> None then AList.update (arg_name arg) v (new_values s)
                  else new_values s),
               type_for_column := AList.update (arg_name arg) entry (type_for_column s)\<rparr>) = Inr s'"
    by (auto split: option.splits sum.splits)
  show ?case
    by (rule Cons.IH [OF run]) (use Cons.prems(2) in \<open>simp add: distinct_update del: AList.update.simps\<close>)
qed

lemma create_table_distinct:
  "create_table e p = Inr s \<Longrightarrow> distinct (map fst (new_values s))"
  unfolding create_table_def by (erule create_columns_distinct) simp

text \<open>What the update of the driver in memory writes into a row.\<close>

lemma fold_update_other:
  "c \<notin> fst ` set vs \<Longrightarrow> map_of (fold (\<lambda>(col, v). AList.update col v) vs row) c = map_of row c"
  by (induction vs arbitrary: row) (auto simp: update_conv' simp del: AList.update.simps)

lemma fold_update_set:
  "distinct (map fst vs) \<Longrightarrow> (c, v) \<in> set vs \<Longrightarrow>
   map_of (fold (\<lambda>(col, v). AList.update col v) vs row) c = Some v"
proof (induction vs arbitrary: row)
  case Nil
  then show ?case by simp
next
  case (Cons kv vs)
  obtain k x where kv: "kv = (k, x)" by (cases kv)
  show ?case
  proof (cases "(c, v) \<in> set vs")
    case True
    with Cons kv show ?thesis by simp
  next
    case False
    with Cons.prems kv have c: "c = k" "v = x" and "k \<notin> fst ` set vs" by auto
    then show ?thesis
      using fold_update_other [of k vs "AList.update k x row"] kv
      by (simp add: update_conv' del: AList.update.simps)
  qed
qed

text \<open>
  The clause of \<^verbatim>\<open>where_keys\<close> keeps what the loop over the keys put into \<^verbatim>\<open>args\<close>:
  a row it holds on carries, in each key column with a declared value, a value equal
  to the declared one. So a row the update has written agrees with the declared values.
\<close>

lemma key_args_mono: "key_args e s args ks = Inr out \<Longrightarrow> set args \<subseteq> set out"
proof (induction ks arbitrary: args)
  case Nil
  then show ?case by simp
next
  case (Cons k ks)
  then show ?case by (fastforce split: option.splits sum.splits)
qed

lemma key_args_eqs:
  "key_args e s args ks = Inr out \<Longrightarrow> k \<in> set ks \<Longrightarrow> map_of (new_values s) k = Some v \<Longrightarrow>
   PFalse \<in> set out \<or> PEq k (PVal v) \<in> set out"
proof (induction ks arbitrary: args)
  case Nil
  then show ?case by simp
next
  case (Cons k' ks)
  show ?case
  proof (cases "k' = k")
    case True
    with Cons.prems(1,3) obtain cr where
      cr: "where_column_helper e s (PVal (VStr k)) = Inr cr" and
      run: "key_args e s (args @ [column_eq cr (PVal v)]) ks = Inr out"
      by (auto split: sum.splits)
    from key_args_mono [OF run] have "column_eq cr (PVal v) \<in> set out" by auto
    moreover from cr have "cr = Column k \<or> cr = CollectionAttr k"
      by (auto simp: where_column_helper_def split: if_splits)
    ultimately show ?thesis by auto
  next
    case False
    with Cons.prems(2) have "k \<in> set ks" by simp
    with Cons.prems(1,3) Cons.IH show ?thesis
      by (auto split: option.splits sum.splits)
  qed
qed

lemma split_filter_keeps:
  "split_filter e s args fltrs = Inr out \<Longrightarrow> set args \<subseteq> set out"
  using split_filter_acc [of e s args fltrs] by (auto split: sum.splits)

lemma where_keys_key:
  assumes "where_keys e p s = Inr w" and "k \<in> set (self_keys s)"
    and "map_of (new_values s) k = Some v" and "where_holds w row"
  shows "\<exists>rv. map_of row k = Some rv \<and> py_eq v rv"
proof -
  from assms(1) obtain args out where
    args: "key_args e s [] (self_keys s) = Inr args" and
    out: "(if param_filter p \<noteq> [] then split_filter e s args (param_filter p) else Inr args) = Inr out" and
    w: "w = (if length out > 0 then Some (PAnd out) else None)"
    by (auto simp: where_keys_def split: sum.splits)
  from out have sub: "set args \<subseteq> set out"
    by (auto dest: split_filter_keeps split: if_splits)
  from key_args_eqs [OF args assms(2,3)] sub
  have mem: "PFalse \<in> set out \<or> PEq k (PVal v) \<in> set out" by auto
  then have "out \<noteq> []" by auto
  with w assms(4) have "\<forall>q \<in> set out. holds q row" by (simp add: where_holds_def)
  with mem have "holds (PEq k (PVal v)) row" by auto
  then show ?thesis by (auto split: option.splits)
qed

lemma updated_row_agrees:
  assumes "where_keys e p s = Inr w" and "distinct (map fst (new_values s))"
    and "where_holds w row"
  shows "agrees (new_values s)
           (fold (\<lambda>(col, v). AList.update col v)
              (filter (\<lambda>(col, v). col \<notin> set (self_keys s)) (new_values s)) row)"
  unfolding agrees_def
proof (intro ballI, clarify)
  fix c v
  assume cv: "(c, v) \<in> set (new_values s)"
  let ?vs = "filter (\<lambda>(col, v). col \<notin> set (self_keys s)) (new_values s)"
  show "\<exists>rv. map_of (fold (\<lambda>(col, v). AList.update col v) ?vs row) c = Some rv \<and> py_eq v rv"
  proof (cases "c \<in> set (self_keys s)")
    case True
    then have "c \<notin> fst ` set ?vs" by auto
    then have same: "map_of (fold (\<lambda>(col, v). AList.update col v) ?vs row) c = map_of row c"
      by (rule fold_update_other)
    from cv assms(2) have "map_of (new_values s) c = Some v" by simp
    from where_keys_key [OF assms(1) True this assms(3)] same show ?thesis by simp
  next
    case False
    with cv have "(c, v) \<in> set ?vs" by simp
    moreover from assms(2) have "distinct (map fst ?vs)" by (simp add: distinct_map_filter)
    ultimately have "map_of (fold (\<lambda>(col, v). AList.update col v) ?vs row) c = Some v"
      by (rule fold_update_set [rotated])
    then show ?thesis by (simp add: py_eq_refl)
  qed
qed

lemma filter_map_update:
  assumes "\<And>row. P row \<Longrightarrow> P (U row)"
  shows "filter P (map (\<lambda>row. if P row then U row else row) db) = map U (filter P db)"
  using assms by (induction db) auto

text \<open>A \<^verbatim>\<open>present\<close> call on the driver in memory.\<close>

lemma exit_json_unchanged:
  "exit_json c fr = Inr r \<Longrightarrow> exit_json False fr = Inr (r\<lparr>changed := False\<rparr>)"
  by (auto simp: exit_json_def split: sum.splits)

lemma exit_json_not_changed: "reported_changed (exit_json False fr, db, lg) \<noteq> Some True"
  by (simp add: reported_changed_def exit_json_def split: sum.splits)

lemma mem_select_rows:
  assumes "where_keys e p s = Inr w" and "param_state p = SPresent"
  shows "select_rows mem_driver e p s db =
           (Inr (if param_distinct p then remdups (filter (where_holds w) db)
                 else filter (where_holds w) db),
            [Select (table_name s) w (param_distinct p) False])"
  using assms by (simp add: select_rows_def mem_driver_def mem_query_def Let_def)

lemma mem_present_run:
  assumes "param_state p = SPresent" and "create_table e p = Inr s"
    and "where_keys e p s = Inr w"
  shows "SQLQuery_init mem_driver e p db =
           (if param_table p = ''test'' then
              run_present mem_driver e p s db
                (if param_distinct p then remdups (filter (where_holds w) db)
                 else filter (where_holds w) db)
                [Select (table_name s) w (param_distinct p) False]
            else (Inl (FailJson ''table does not exist''), db, []))"
  using assms mem_select_rows [OF assms(3,1), of db]
  by (simp add: SQLQuery_init_def) (simp add: mem_driver_def)

text \<open>
  A run that has to update: the row of the key is there with another value in
  \<^verbatim>\<open>col2\<close>. The call reads, updates the column that is not a key, and reads again.
\<close>

lemma example_update_run:
  "SQLQuery_init mem_driver example_env example_params
       [[(''col1'', VStr ''blubb''), (''col2'', VInt 5)]] =
     (Inr \<lparr>changed = True, rows = Some [example_row]\<rparr>, [example_row],
      [Select ''test'' example_where False False,
       Update ''test'' example_where [(''col2'', VInt 1)],
       Select ''test'' example_where False False])"
  by (simp add: example_defs engine_defs)

text \<open>
  Claim C1 says that of two calls in sequence with the same \<^verbatim>\<open>present\<close> request at
  most one reports \<^verbatim>\<open>changed=True\<close>: once the first call has brought the table to the
  desired state, the second reports \<^verbatim>\<open>changed=False\<close>. Counterexample: the request of
  the example with the filter \<^verbatim>\<open>{eq: {column: col2, value: 5}}\<close>, on an empty table.
  The first call inserts the declared row, \<^verbatim>\<open>col1 = 'blubb'\<close> and \<^verbatim>\<open>col2 = 1\<close>, and
  leaves the table holding exactly that row; the second call reads with the clause
  \<^verbatim>\<open>col1 = 'blubb' AND col2 = 5\<close>, finds no row, reports \<^verbatim>\<open>changed=True\<close> again and
  inserts the row a second time.
\<close>

theorem C1_filter_counterexample:
  "param_state (example_params\<lparr>param_filter :=
       [(''eq'', PDict [(''column'', PVal (VStr ''col2'')), (''value'', PVal (VInt 5))])]\<rparr>) = SPresent
   \<and> SQLQuery_init mem_driver example_env
        (example_params\<lparr>param_filter :=
           [(''eq'', PDict [(''column'', PVal (VStr ''col2'')), (''value'', PVal (VInt 5))])]\<rparr>) []
      = (Inr \<lparr>changed = True, rows = Some []\<rparr>, [example_row],
         [Select ''test'' (Some (PAnd [PEq ''col1'' (PVal (VStr ''blubb'')),
                                       PEq ''col2'' (PVal (VInt 5))])) False False,
          Insert ''test'' example_row,
          Select ''test'' (Some (PAnd [PEq ''col1'' (PVal (VStr ''blubb'')),
                                       PEq ''col2'' (PVal (VInt 5))])) False False])
   \<and> SQLQuery_init mem_driver example_env
        (example_params\<lparr>param_filter :=
           [(''eq'', PDict [(''column'', PVal (VStr ''col2'')), (''value'', PVal (VInt 5))])]\<rparr>)
        [example_row]
      = (Inr \<lparr>changed = True, rows = Some []\<rparr>, [example_row, example_row],
         [Select ''test'' (Some (PAnd [PEq ''col1'' (PVal (VStr ''blubb'')),
                                       PEq ''col2'' (PVal (VInt 5))])) False False,
          Insert ''test'' example_row,
          Select ''test'' (Some (PAnd [PEq ''col1'' (PVal (VStr ''blubb'')),
                                       PEq ''col2'' (PVal (VInt 5))])) False False])"
  by (simp add: example_defs engine_defs)

text \<open>
  Claim C1 as amended. A \<^verbatim>\<open>present\<close> request outside check mode whose declared values
  themselves satisfy its WHERE clause (the key equalities and the compiled filter), run
  twice in sequence on the database in memory, with the same declared values and the
  same clause in both calls: the second call never reports \<^verbatim>\<open>changed=True\<close>, so the two
  calls report it at most once; and when the first call returns, the second returns
  \<^verbatim>\<open>changed=False\<close> with the same rows.
\<close>

theorem C1_idempotent_in_memory:
  assumes present: "param_state p = SPresent" and nocheck: "\<not> check_mode p"
    and tbl: "create_table e p = Inr s" and tbl': "create_table e' p = Inr s"
    and w: "where_keys e p s = Inr w" and w': "where_keys e' p s = Inr w"
    and sat: "where_holds w (new_values s)"
  shows "reported_changed
           (SQLQuery_init mem_driver e' p (final_db (SQLQuery_init mem_driver e p db)))
           \<noteq> Some True
       \<and> (\<forall>r. fst (SQLQuery_init mem_driver e p db) = Inr r \<longrightarrow>
             fst (SQLQuery_init mem_driver e' p (final_db (SQLQuery_init mem_driver e p db)))
               = Inr (r\<lparr>changed := False\<rparr>))"
proof (cases "param_table p = ''test''")
  case False
  then show ?thesis
    by (simp add: mem_present_run [OF present tbl w] mem_present_run [OF present tbl' w']
          final_db_def reported_changed_def)
next
  case True
  define sel where "sel = (\<lambda>db. if param_distinct p then remdups (filter (where_holds w) db)
                 else filter (where_holds w) db)"
  define lg where "lg = [Select (table_name s) w (param_distinct p) False]"
  have first: "SQLQuery_init mem_driver e p db = run_present mem_driver e p s db (sel db) lg" for db
    using True by (simp add: mem_present_run [OF present tbl w] sel_def lg_def)
  have second: "SQLQuery_init mem_driver e' p db = run_present mem_driver e' p s db (sel db) lg" for db
    using True by (simp add: mem_present_run [OF present tbl' w'] sel_def lg_def)
  have dist: "distinct (map fst (new_values s))" by (rule create_table_distinct [OF tbl])
  have sel_empty: "sel d = [] \<longleftrightarrow> filter (where_holds w) d = []" for d
    by (simp add: sel_def)
  have sel_set: "set (sel d) = set (filter (where_holds w) d)" for d
    by (simp add: sel_def)
  have settled: "reported_changed (SQLQuery_init mem_driver e' p db1) \<noteq> Some True \<and>
      (\<forall>r. exit_json c (format_rows s (RowList (sel db1))) = Inr r \<longrightarrow>
           fst (SQLQuery_init mem_driver e' p db1) = Inr (r\<lparr>changed := False\<rparr>))"
    if "converged s (sel db1)" for db1 c
    using run_present_converged [OF that, of mem_driver e' p db1 lg] nocheck
    by (simp add: second exit_json_not_changed exit_json_unchanged)
  show ?thesis
  proof (cases "if length (sel db) < 1 then Inr True else compare_rows s (sel db)")
    case (Inl err)
    then have "run_present mem_driver e p s db (sel db) lg = (Inl err, db, lg)"
      and "run_present mem_driver e' p s db (sel db) lg = (Inl err, db, lg)"
      by (simp_all add: run_present_def)
    then show ?thesis by (simp add: first second final_db_def reported_changed_def)
  next
    case (Inr c)
    show ?thesis
    proof (cases c)
      case False
      with Inr nocheck
      have "run_present mem_driver e p s db (sel db) lg
              = (exit_json False (format_rows s (RowList (sel db))), db, lg)"
        and "run_present mem_driver e' p s db (sel db) lg
              = (exit_json False (format_rows s (RowList (sel db))), db, lg)"
        by (simp_all add: run_present_def)
      then show ?thesis
        using exit_json_unchanged [of False "format_rows s (RowList (sel db))"]
        by (simp add: first second final_db_def exit_json_not_changed)
    next
      case True
      show ?thesis
      proof (cases "sel db = []")
        case empty: True
        define db1 where "db1 = db @ [new_values s]"
        from empty have none: "filter (where_holds w) db = []" by (simp add: sel_empty)
        with sat have sel1: "sel db1 = [new_values s]"
          by (simp add: sel_def db1_def)
        have conv: "converged s (sel db1)"
          by (simp add: sel1 converged_agrees agrees_self [OF dist])
        have "run_present mem_driver e p s db (sel db) lg =
                reread_and_exit mem_driver e p s db1 True
                  (lg @ [Insert (table_name s) (new_values s)])"
          using empty nocheck
          by (simp add: run_present_def insert_row_def execute_write_def mem_driver_def
                mem_write_def db1_def)
        also have "\<dots> = (exit_json True (format_rows s (RowList (sel db1))), db1,
                         lg @ [Insert (table_name s) (new_values s)] @ lg)"
          using mem_select_rows [OF w present, of db1]
          by (simp add: reread_and_exit_def sel_def lg_def)
        finally show ?thesis
          using settled [OF conv, of True] by (simp add: first final_db_def)
      next
        case nonempty: False
        define U where "U row = fold (\<lambda>(col, v). AList.update col v)
              (filter (\<lambda>(col, v). col \<notin> set (self_keys s)) (new_values s)) row" for row
        define db1 where "db1 = map (\<lambda>row. if where_holds w row then U row else row) db"
        have agr: "agrees (new_values s) (U row)" if "where_holds w row" for row
          unfolding U_def by (rule updated_row_agrees [OF w dist that])
        have keep: "where_holds w (U row)" if "where_holds w row" for row
          by (rule where_holds_agrees [OF agr [OF that] sat])
        have found: "filter (where_holds w) db1 = map U (filter (where_holds w) db)"
          unfolding db1_def by (rule filter_map_update) (rule keep)
        have conv: "converged s (sel db1)"
          unfolding converged_agrees
        proof
          from nonempty show "sel db1 \<noteq> []" by (simp add: sel_empty found)
          show "\<forall>row \<in> set (sel db1). agrees (new_values s) row"
            by (auto simp: sel_set found intro: agr)
        qed
        have "run_present mem_driver e p s db (sel db) lg =
                reread_and_exit mem_driver e p s db1 True
                  (lg @ [Update (table_name s) w
                           (filter (\<lambda>(col, v). col \<notin> set (self_keys s)) (new_values s))])"
          unfolding db1_def U_def
          using nonempty nocheck Inr True w
          by (simp add: run_present_def update_rows_def execute_write_def mem_driver_def
                mem_write_def)
        also have "\<dots> = (exit_json True (format_rows s (RowList (sel db1))), db1,
                         lg @ [Update (table_name s) w
                           (filter (\<lambda>(col, v). col \<notin> set (self_keys s)) (new_values s))] @ lg)"
          using mem_select_rows [OF w present, of db1]
          by (simp add: reread_and_exit_def sel_def lg_def)
        finally show ?thesis
          using settled [OF conv, of True] by (simp add: first final_db_def)
      qed
    qed
  qed
qed

theorem C1_idempotent_in_memory_witness:
  "where_holds example_where (new_values example_self)
   \<and> SQLQuery_init mem_driver example_env example_params [] =
       (Inr \<lparr>changed = True, rows = Some [example_row]\<rparr>, [example_row],
        [Select ''test'' example_where False False, Insert ''test'' example_row,
         Select ''test'' example_where False False])
   \<and> fst (SQLQuery_init mem_driver example_env example_params
             (final_db (SQLQuery_init mem_driver example_env example_params [])))
       = Inr \<lparr>changed = False, rows = Some [example_row]\<rparr>"
proof -
  have a: "param_state example_params = SPresent" and b: "\<not> check_mode example_params"
    by (simp_all add: example_params_def)
  have sat: "where_holds example_where (new_values example_self)"
    by (simp add: example_defs)
  have first: "SQLQuery_init mem_driver example_env example_params [] =
       (Inr \<lparr>changed = True, rows = Some [example_row]\<rparr>, [example_row],
        [Select ''test'' example_where False False, Insert ''test'' example_row,
         Select ''test'' example_where False False])"
    by (simp add: example_defs engine_defs)
  from C1_idempotent_in_memory [OF a b example_create example_create example_where_keys
         example_where_keys sat, of "[]"] first
  have "fst (SQLQuery_init mem_driver example_env example_params
             (final_db (SQLQuery_init mem_driver example_env example_params [])))
       = Inr \<lparr>changed = False, rows = Some [example_row]\<rparr>"
    by simp
  with sat first show ?thesis by simp
qed

section \<open>Dates and timestamps\<close>

text \<open>
  Claim C9. \<^verbatim>\<open>to_datetime\<close> on a native date returns it; on a native timestamp it
  returns it, cut to its date when \<^verbatim>\<open>date\<close> is set; on a text whose stripped form is
  exactly \<^verbatim>\<open>now\<close> it returns the clock reading, cut to its date when \<^verbatim>\<open>date\<close> is set; on
  any other text it returns what \<^verbatim>\<open>strptime\<close> parses with \<^verbatim>\<open>%Y-%m-%d\<close> (for a date) or
  \<^verbatim>\<open>%Y-%m-%d %H:%M:%S\<close> (for a timestamp), and raises \<^verbatim>\<open>ValueError\<close> when the text does
  not match. The types \<^verbatim>\<open>Date\<close> and \<^verbatim>\<open>DateTime\<close> coerce with it.
\<close>

theorem C9_to_datetime_cases:
  "to_datetime e (VDate d) date = Inr (VDate d)
   \<and> to_datetime e (VDateTime t) date = Inr (if date then VDate (dt_date t) else VDateTime t)
   \<and> to_datetime e (VStr txt) date =
       (if strip txt = ''now'' then Inr (if date then VDate (dt_date (now e)) else VDateTime (now e))
        else
          (case strptime e txt (if date then ''%Y-%m-%d'' else ''%Y-%m-%d %H:%M:%S'') of
             None \<Rightarrow> Inl ValueError
           | Some t' \<Rightarrow> Inr (if date then VDate (dt_date t') else VDateTime t')))
   \<and> map_option python (TYPE_FOR_NAME e ''Date'') = Some (\<lambda>x. to_datetime e x True)
   \<and> map_option python (TYPE_FOR_NAME e ''DateTime'') = Some (\<lambda>x. to_datetime e x False)"
  by (simp add: to_datetime_def to_datetime_parse_def TYPE_FOR_NAME_def split: option.splits)

theorem C9_to_datetime_cases_witness:
  "to_datetime example_env (VStr '' now '') True = Inr (VDate (Date 2020 5 1))
   \<and> to_datetime example_env (VStr ''Now'') False = Inl ValueError
   \<and> to_datetime example_env (VStr ''2020-05-01 12:15:00'') False
       = Inr (VDateTime (DateTime (Date 2020 5 1) 12 15 0 0))
   \<and> to_datetime example_env (VStr ''2020-05-01 12:15:00'') True = Inl ValueError
   \<and> to_datetime example_env (VDateTime (DateTime (Date 2020 5 1) 12 15 0 0)) True
       = Inr (VDate (Date 2020 5 1))"
  using C9_to_datetime_cases [of example_env _ True _ "'' now ''"]
    C9_to_datetime_cases [of example_env _ False _ "''Now''"]
    C9_to_datetime_cases [of example_env _ False _ "''2020-05-01 12:15:00''"]
    C9_to_datetime_cases [of example_env _ True "DateTime (Date 2020 5 1) 12 15 0 0" "''2020-05-01 12:15:00''"]
  by (simp add: example_env_def strip_def is_space_def)

text \<open>A raw value that is neither a date nor a text has no \<^verbatim>\<open>strip\<close>.\<close>

lemma to_datetime_not_text:
  "to_datetime e VNone date = Inl AttributeError"
  "to_datetime e (VInt i) date = Inl AttributeError"
  "to_datetime e (VBool b) date = Inl AttributeError"
  by (simp_all add: to_datetime_def to_datetime_parse_def)

section \<open>Formatting rows\<close>

lemma map_of_strict:
  "map_of (type_for_column (with_strict_types s)) col =
     map_option reject_none (map_of (type_for_column s) col)"
  by (simp add: with_strict_types_def map_of_map)

lemma python_reject_none: "v \<noteq> VNone \<Longrightarrow> python (reject_none entry) v = python entry v"
  by (simp add: reject_none_def)

lemma format_row_strict:
  "format_row (with_strict_types s) row frow cols = format_row s row frow cols"
  by (induction cols arbitrary: frow)
     (auto simp: map_of_strict python_reject_none split: option.splits sum.splits
           simp del: AList.update.simps)

lemma format_row_list_strict:
  "format_row_list (with_strict_types s) frows rws = format_row_list s frows rws"
  by (induction rws arbitrary: frows) (simp_all add: format_row_strict split: sum.splits)

lemma format_rows_strict: "format_rows (with_strict_types s) rs = format_rows s rs"
proof (cases rs)
  case (RowList rws)
  then show ?thesis by (simp add: format_row_list_strict)
next
  case (RowDict kvs)
  then show ?thesis by (cases kvs) simp_all
qed

lemma format_row_null:
  "format_row s row frow cols = Inr frow' \<Longrightarrow> map_of row col = Some VNone \<Longrightarrow>
   col \<in> set cols \<or> map_of frow col = Some VNone \<Longrightarrow> map_of frow' col = Some VNone"
proof (induction cols arbitrary: frow)
  case Nil
  then show ?case by simp
next
  case (Cons c cols)
  from Cons.prems(1) obtain entry v where
    entry: "map_of (type_for_column s) c = Some entry" and v: "map_of row c = Some v"
    by (auto split: option.splits)
  show ?case
  proof (cases "v = VNone")
    case True
    with Cons.prems(1) entry v
    have run: "format_row s row (AList.update c VNone frow) cols = Inr frow'"
      by (simp del: AList.update.simps)
    show ?thesis
    proof (rule Cons.IH [OF run Cons.prems(2)])
      show "col \<in> set cols \<or> map_of (AList.update c VNone frow) col = Some VNone"
        using Cons.prems(3) by (auto simp: update_conv' simp del: AList.update.simps)
    qed
  next
    case False
    with Cons.prems(1) entry v obtain v' where
      run: "format_row s row (AList.update c v' frow) cols = Inr frow'"
      by (auto split: sum.splits simp del: AList.update.simps)
    from False v Cons.prems(2) have "col \<noteq> c" by auto
    show ?thesis
    proof (rule Cons.IH [OF run Cons.prems(2)])
      show "col \<in> set cols \<or> map_of (AList.update c v' frow) col = Some VNone"
        using Cons.prems(3) \<open>col \<noteq> c\<close> by (auto simp: update_conv' simp del: AList.update.simps)
    qed
  qed
qed

lemma format_row_list_shape:
  "format_row_list s acc rws = Inr out \<Longrightarrow>
   \<exists>fs. out = acc @ fs \<and> length fs = length rws \<and>
        (\<forall>i < length rws. format_row s (rws ! i) [] (map fst (rws ! i)) = Inr (fs ! i))"
proof (induction rws arbitrary: acc)
  case Nil
  then show ?case by simp
next
  case (Cons row rws)
  from Cons.prems obtain frow where
    frow: "format_row s row [] (map fst row) = Inr frow" and
    run: "format_row_list s (acc @ [frow]) rws = Inr out"
    by (auto split: sum.splits)
  from Cons.IH [OF run] obtain fs where
    fs: "out = (acc @ [frow]) @ fs" "length fs = length rws"
        "\<forall>i < length rws. format_row s (rws ! i) [] (map fst (rws ! i)) = Inr (fs ! i)"
    by blast
  have "\<forall>i < length (row # rws).
          format_row s ((row # rws) ! i) [] (map fst ((row # rws) ! i)) = Inr ((frow # fs) ! i)"
    using frow fs(3) by (auto simp: nth_Cons split: nat.splits)
  with fs(1,2) show ?case by (intro exI [of _ "frow # fs"]) simp
qed

text \<open>
  Claim C10. \<^verbatim>\<open>format_rows\<close> never hands \<^verbatim>\<open>None\<close> to a coercion function: its result
  is the same when every coercion function of the type table is replaced by one that
  raises on \<^verbatim>\<open>None\<close>. And a stored \<^verbatim>\<open>None\<close> comes back as \<^verbatim>\<open>None\<close>: when the rows are
  formatted, there is one formatted row per row, and a column that holds \<^verbatim>\<open>None\<close> in a
  row holds \<^verbatim>\<open>None\<close> in its formatted row.
\<close>

theorem C10_null_not_coerced:
  "format_rows (with_strict_types s) rs = format_rows s rs
   \<and> (\<forall>rws frows. format_rows s (RowList rws) = Inr frows \<longrightarrow>
         length frows = length rws \<and>
         (\<forall>i < length rws. \<forall>col. map_of (rws ! i) col = Some VNone \<longrightarrow>
             map_of (frows ! i) col = Some VNone))"
proof (intro conjI allI impI)
  show "format_rows (with_strict_types s) rs = format_rows s rs"
    by (rule format_rows_strict)
next
  fix rws frows
  assume "format_rows s (RowList rws) = Inr frows"
  then have "format_row_list s [] rws = Inr frows" by simp
  from format_row_list_shape [OF this]
  have len: "length frows = length rws"
    and each: "\<forall>i < length rws. format_row s (rws ! i) [] (map fst (rws ! i)) = Inr (frows ! i)"
    by auto
  show "length frows = length rws" by (rule len)
  fix i col
  assume i: "i < length rws" and null: "map_of (rws ! i) col = Some VNone"
  from null have "col \<in> set (map fst (rws ! i))"
    by (metis map_of_eq_None_iff option.distinct(1) set_map)
  with each i null show "map_of (frows ! i) col = Some VNone"
    by (blast intro: format_row_null)
qed

theorem C10_null_not_coerced_witness:
  "format_rows example_self (RowList [[(''col1'', VStr ''blubb''), (''col2'', VNone)]])
     = Inr [[(''col1'', VStr ''blubb''), (''col2'', VNone)]]
   \<and> python (reject_none \<lparr>sqlalchemy = SA_Integer, python = py_int\<rparr>) VNone = Inl TypeError
   \<and> format_rows (with_strict_types example_self)
        (RowList [[(''col1'', VStr ''blubb''), (''col2'', VNone)]])
     = Inr [[(''col1'', VStr ''blubb''), (''col2'', VNone)]]"
proof -
  have run: "format_rows example_self (RowList [[(''col1'', VStr ''blubb''), (''col2'', VNone)]])
     = Inr [[(''col1'', VStr ''blubb''), (''col2'', VNone)]]"
    by (simp add: example_self_def)
  from C10_null_not_coerced [of example_self "RowList [[(''col1'', VStr ''blubb''), (''col2'', VNone)]]"]
  have "format_rows (with_strict_types example_self)
          (RowList [[(''col1'', VStr ''blubb''), (''col2'', VNone)]])
        = format_rows example_self (RowList [[(''col1'', VStr ''blubb''), (''col2'', VNone)]])"
    by blast
  with run show ?thesis by (simp add: reject_none_def)
qed


end
